theory Spec2Isabelle
  imports Main "HOL-Library.Word"
begin

section \<open>JavaScript strings\<close>

text \<open>
  A JavaScript string is a sequence of 16-bit code units. The functions of \<^verbatim>\<open>app.js\<close>
  look at single code units only (a question mark, a quote, a line break, white space),
  so a string is modelled as a list of 16-bit words. \<open>js\<close> turns an ASCII literal into
  such a string.
\<close>

type_synonym jschar = "16 word"
type_synonym jsstring = "jschar list"

definition js :: "string \<Rightarrow> jsstring" where
  "js cs = map of_char cs"

text \<open>
  The code units that \<^verbatim>\<open>String.prototype.trim\<close> removes: the WhiteSpace and
  LineTerminator productions of ECMAScript (TAB, VT, FF, SP, NBSP, ZWNBSP, the
  Unicode space separators, LF, CR, LS, PS).
\<close>

definition isLineTerminator :: "jschar \<Rightarrow> bool" where
  "isLineTerminator c \<longleftrightarrow> c = 0x000A \<or> c = 0x000D \<or> c = 0x2028 \<or> c = 0x2029"

definition isWhiteSpace :: "jschar \<Rightarrow> bool" where
  "isWhiteSpace c \<longleftrightarrow>
     c = 0x0009 \<or> c = 0x000B \<or> c = 0x000C \<or> c = 0x0020 \<or> c = 0x00A0 \<or> c = 0xFEFF \<or>
     c = 0x1680 \<or> (0x2000 \<le> c \<and> c \<le> 0x200A) \<or> c = 0x202F \<or> c = 0x205F \<or> c = 0x3000"

definition isTrimmed :: "jschar \<Rightarrow> bool" where
  "isTrimmed c \<longleftrightarrow> isWhiteSpace c \<or> isLineTerminator c"

definition trimStart :: "jsstring \<Rightarrow> jsstring" where
  "trimStart s = dropWhile isTrimmed s"

definition trimEnd :: "jsstring \<Rightarrow> jsstring" where
  "trimEnd s = rev (dropWhile isTrimmed (rev s))"

definition trim :: "jsstring \<Rightarrow> jsstring" where
  "trim s = trimEnd (trimStart s)"

text \<open>A string is truthy in a JavaScript condition exactly when it is not empty.\<close>

definition truthy :: "jsstring \<Rightarrow> bool" where
  "truthy s \<longleftrightarrow> s \<noteq> []"

text \<open>\<^verbatim>\<open>code.split('\n')\<close>: the pieces between line feeds, at least one piece.\<close>

fun split_lines :: "jsstring \<Rightarrow> jsstring list" where
  "split_lines [] = [[]]"
| "split_lines (c # cs) =
     (if c = 0x000A then [] # split_lines cs
      else (case split_lines cs of l # ls \<Rightarrow> (c # l) # ls | [] \<Rightarrow> [[c]]))"

section \<open>Help requests\<close>

text \<open>
  \<^verbatim>\<open>code.match(/^\?(.+)$/)\<close>: the pattern has no flags, so \<open>^\<close> and \<open>$\<close> are the
  two ends of the string and the dot matches every code unit but a line terminator.
  The match exists when the string is a question mark followed by at least one code
  unit, none of them a line terminator; group 1 is what follows the question mark.
\<close>

definition match_question :: "jsstring \<Rightarrow> jsstring option" where
  "match_question code =
     (case code of
        [] \<Rightarrow> None
      | c # rest \<Rightarrow>
          if c = of_char CHR ''?'' \<and> rest \<noteq> [] \<and> \<not> list_ex isLineTerminator rest
          then Some rest else None)"

text \<open>
  \<^verbatim>\<open>code.match(/^help\(["']?([^"')]+)["']?\)$/)\<close>. After the literal \<^verbatim>\<open>help(\<close> the matcher
  takes an optional quote, then the longest run of code units that are none of
  \<^verbatim>\<open>" ' )\<close> (the run cannot stop earlier, since what follows it must be a quote or a
  closing parenthesis), then an optional quote, the closing parenthesis and the end of
  the string. Group 1 is the run.
\<close>

definition isQuote :: "jschar \<Rightarrow> bool" where
  "isQuote c \<longleftrightarrow> c = of_char CHR 0x22 \<or> c = of_char CHR 0x27"

definition inTopicClass :: "jschar \<Rightarrow> bool" where
  "inTopicClass c \<longleftrightarrow> \<not> isQuote c \<and> c \<noteq> of_char CHR '')''"

fun strip_prefix :: "jsstring \<Rightarrow> jsstring \<Rightarrow> jsstring option" where
  "strip_prefix [] s = Some s"
| "strip_prefix (p # ps) [] = None"
| "strip_prefix (p # ps) (c # cs) = (if p = c then strip_prefix ps cs else None)"

definition optional_quote :: "jsstring \<Rightarrow> jsstring" where
  "optional_quote s = (case s of [] \<Rightarrow> [] | c # cs \<Rightarrow> if isQuote c then cs else c # cs)"

definition match_help_call :: "jsstring \<Rightarrow> jsstring option" where
  "match_help_call code =
     (case strip_prefix (js ''help('') code of
        None \<Rightarrow> None
      | Some r0 \<Rightarrow>
          let r1 = optional_quote r0;
              topic = takeWhile inTopicClass r1;
              r2 = optional_quote (dropWhile inTopicClass r1)
          in if topic \<noteq> [] \<and> r2 = js '')'' then Some topic else None)"

text \<open>
  \<^verbatim>\<open>isHelpRequest\<close>: \<open>None\<close> is JavaScript's \<^verbatim>\<open>null\<close>. The second pattern is tried
  only when the first one fails (\<^verbatim>\<open>||\<close> on a match result).
\<close>

definition isHelpRequest :: "jsstring \<Rightarrow> jsstring option" where
  "isHelpRequest code =
     (case match_question code of
        Some topic \<Rightarrow> Some (trim topic)
      | None \<Rightarrow>
          (case match_help_call code of
             Some topic \<Rightarrow> Some (trim topic)
           | None \<Rightarrow> None))"

section \<open>The session state\<close>

text \<open>
  The module-level variables of \<^verbatim>\<open>app.js\<close> and the parts of the page that its functions
  write. The page's elements are taken to exist (\<^verbatim>\<open>getElement\<close> finds each of them), so
  the console widget is present whenever one of its key handlers runs. \<open>webR\<close> says
  whether the variable \<^verbatim>\<open>webR\<close> holds an interpreter object (it is \<^verbatim>\<open>null\<close> before).
  \<open>webR_calls\<close> is the list of requests made to the interpreter so far, oldest first; it
  is not a variable of the script but records what the script asked of its collaborator
  (\<open>ShelterNew ok\<close> is a call of the shelter constructor and whether it returned).
  \<open>consoleValue\<close> and \<open>consoleReadOnly\<close> are the content and the option of the console
  input widget, \<open>consoleOutput\<close> the lines of the output log with their classes, \<open>status\<close>
  the class of the status dot with the status text, and the fields from \<open>plotsEmpty_shown\<close>
  on are what \<^verbatim>\<open>updatePlotDisplay\<close> writes; the counter's text \<^verbatim>\<open>i / n\<close> is kept as the
  pair of its two numbers.
\<close>

datatype 'a outcome = Raises jsstring | Returns 'a

datatype webr_call = HelpLookup | ShelterNew bool | CaptureR | Purge

datatype console_class = Stdout | Stderr | Command | System

datatype status_class = Loading | Ready | Error

datatype imageData = ImageBitmap nat | UrlString jsstring | Blob nat | OtherData

datatype dataUrl = CanvasPng nat | Url jsstring | ObjectUrl nat

datatype help_body = HelpPlaceholder | HelpText jsstring

record editor_widget =
  ed_lines :: "jsstring list"
  ed_cursor_line :: nat
  ed_selection :: jsstring

record state =
  webR :: bool
  webR_calls :: "webr_call list"
  editor :: "editor_widget option"
  consoleValue :: jsstring
  consoleReadOnly :: bool
  isRunning :: bool
  commandHistory :: "jsstring list"
  historyIndex :: int
  plotImages :: "dataUrl option list"
  currentPlotIndex :: int
  consoleOutput :: "(jsstring \<times> console_class) list"
  status :: "status_class \<times> jsstring"
  runBtn_disabled :: bool
  helpTopic :: jsstring
  helpContent :: help_body
  plotsEmpty_shown :: bool
  plotContainer_shown :: bool
  plotNav_shown :: bool
  plotImage_src :: "dataUrl option"
  plotCounter :: "int \<times> int"
  plotPrev_disabled :: bool
  plotNext_disabled :: bool

text \<open>\<^verbatim>\<open>xs[i]\<close> in JavaScript: \<^verbatim>\<open>undefined\<close> (here \<open>None\<close>) outside the array.\<close>

definition js_index :: "'a list \<Rightarrow> int \<Rightarrow> 'a option" where
  "js_index xs i = (if 0 \<le> i \<and> i < int (length xs) then Some (xs ! nat i) else None)"

section \<open>Status and console\<close>

definition setStatus :: "status_class \<Rightarrow> jsstring \<Rightarrow> state \<Rightarrow> state" where
  "setStatus st text s = s\<lparr>status := (st, text)\<rparr>"

definition appendConsole :: "jsstring \<Rightarrow> console_class \<Rightarrow> state \<Rightarrow> state" where
  "appendConsole text ty s = s\<lparr>consoleOutput := consoleOutput s @ [(text, ty)]\<rparr>"

definition clearConsole :: "state \<Rightarrow> state" where
  "clearConsole s = s\<lparr>consoleOutput := []\<rparr>"

section \<open>Help panel\<close>

text \<open>
  \<^verbatim>\<open>displayHelp\<close> escapes the text and marks its section headings before it writes the
  panel; \<open>HelpText text\<close> stands for the panel as written from \<open>text\<close>.
\<close>

definition clearHelp :: "state \<Rightarrow> state" where
  "clearHelp s = s\<lparr>helpContent := HelpPlaceholder, helpTopic := []\<rparr>"

definition displayHelp :: "jsstring \<Rightarrow> jsstring \<Rightarrow> state \<Rightarrow> state" where
  "displayHelp topic text s = s\<lparr>helpTopic := topic, helpContent := HelpText text\<rparr>"

definition getHelp :: "jsstring outcome \<Rightarrow> jsstring \<Rightarrow> state \<Rightarrow> state" where
  "getHelp reply topic s =
     (if \<not> webR s then s
      else
        let s1 = s\<lparr>webR_calls := webR_calls s @ [HelpLookup]\<rparr>
        in (case reply of
              Returns result \<Rightarrow> displayHelp topic result s1
            | Raises msg \<Rightarrow> displayHelp topic (js ''Error getting help: '' @ msg) s1))"

section \<open>Plots\<close>

definition updatePlotDisplay :: "state \<Rightarrow> state" where
  "updatePlotDisplay s =
     (if length (plotImages s) = 0
      then s\<lparr>plotsEmpty_shown := True, plotContainer_shown := False, plotNav_shown := False\<rparr>
      else s\<lparr>plotsEmpty_shown := False, plotContainer_shown := True, plotNav_shown := True,
             plotImage_src := (case js_index (plotImages s) (currentPlotIndex s) of
                                 None \<Rightarrow> None | Some u \<Rightarrow> u),
             plotCounter := (currentPlotIndex s + 1, int (length (plotImages s))),
             plotPrev_disabled := (currentPlotIndex s = 0),
             plotNext_disabled := (currentPlotIndex s = int (length (plotImages s)) - 1)\<rparr>)"

text \<open>
  \<^verbatim>\<open>addPlot\<close>: a bitmap is drawn on a canvas and exported, a string is kept, a blob gets
  an object URL, and anything else leaves \<^verbatim>\<open>dataUrl\<close> undefined (\<open>None\<close>), which is pushed
  all the same. The canvas and URL functions of the browser are taken to succeed.
\<close>

definition toDataUrl :: "imageData \<Rightarrow> dataUrl option" where
  "toDataUrl imageData =
     (case imageData of
        ImageBitmap b \<Rightarrow> Some (CanvasPng b)
      | UrlString u \<Rightarrow> Some (Url u)
      | Blob b \<Rightarrow> Some (ObjectUrl b)
      | OtherData \<Rightarrow> None)"

definition addPlot :: "imageData \<Rightarrow> state \<Rightarrow> state" where
  "addPlot imageData s =
     (let s1 = s\<lparr>plotImages := plotImages s @ [toDataUrl imageData]\<rparr>;
          s2 = s1\<lparr>currentPlotIndex := int (length (plotImages s1)) - 1\<rparr>
      in updatePlotDisplay s2)"

definition clearPlots :: "state \<Rightarrow> state" where
  "clearPlots s = updatePlotDisplay (s\<lparr>plotImages := [], currentPlotIndex := 0\<rparr>)"

text \<open>The click handlers of the two navigation buttons.\<close>

definition plotPrevClick :: "state \<Rightarrow> state" where
  "plotPrevClick s =
     (if currentPlotIndex s > 0
      then updatePlotDisplay (s\<lparr>currentPlotIndex := currentPlotIndex s - 1\<rparr>)
      else s)"

definition plotNextClick :: "state \<Rightarrow> state" where
  "plotNextClick s =
     (if currentPlotIndex s < int (length (plotImages s)) - 1
      then updatePlotDisplay (s\<lparr>currentPlotIndex := currentPlotIndex s + 1\<rparr>)
      else s)"

text \<open>The document's \<^verbatim>\<open>keydown\<close> handler; \<open>inEditor\<close> says that a CodeMirror widget has focus.\<close>

datatype key = ArrowLeft | ArrowRight | OtherKey

definition plotKeydown :: "key \<Rightarrow> bool \<Rightarrow> state \<Rightarrow> state" where
  "plotKeydown k inEditor s =
     (if inEditor then s
      else if k = ArrowLeft \<and> length (plotImages s) > 0 \<and> currentPlotIndex s > 0
      then updatePlotDisplay (s\<lparr>currentPlotIndex := currentPlotIndex s - 1\<rparr>)
      else if k = ArrowRight \<and> length (plotImages s) > 0
              \<and> currentPlotIndex s < int (length (plotImages s)) - 1
      then updatePlotDisplay (s\<lparr>currentPlotIndex := currentPlotIndex s + 1\<rparr>)
      else s)"

section \<open>Running code\<close>

text \<open>
  What the interpreter answers during one call of \<^verbatim>\<open>runCode\<close>: each request is a promise
  that is fulfilled (\<open>Returns\<close>) or rejected with an error carrying a message
  (\<open>Raises\<close>). The script has no influence on these answers, so they are a parameter.
  An output record has a \<^verbatim>\<open>type\<close> and a \<^verbatim>\<open>data\<close> field, here both strings;
  \<open>outputs\<close> is \<^verbatim>\<open>result.output\<close>, and \<^verbatim>\<open>result.images\<close> may be absent.
\<close>

record output_record =
  out_type :: jsstring
  out_data :: jsstring

record capture_result =
  outputs :: "output_record list"
  images :: "imageData list option"

record run_reply =
  evalRString_reply :: "jsstring outcome"
  Shelter_reply :: "unit outcome"
  captureR_reply :: "capture_result outcome"
  purge_reply :: "unit outcome"

text \<open>The body of the loop over \<^verbatim>\<open>result.output\<close> (lines 387 to 395).\<close>

definition route_output :: "output_record \<Rightarrow> state \<Rightarrow> state" where
  "route_output out s =
     (if out_type out = js ''stdout'' \<and> truthy (trim (out_data out))
      then appendConsole (out_data out) Stdout s
      else if out_type out = js ''stderr'' \<and> truthy (trim (out_data out))
      then appendConsole (out_data out) Stderr s
      else if out_type out = js ''message''
      then appendConsole (out_data out) Stderr s
      else s)"

fun route_outputs :: "output_record list \<Rightarrow> state \<Rightarrow> state" where
  "route_outputs [] s = s"
| "route_outputs (out # outs) s = route_outputs outs (route_output out s)"

fun addPlots :: "imageData list \<Rightarrow> state \<Rightarrow> state" where
  "addPlots [] s = s"
| "addPlots (img # imgs) s = addPlots imgs (addPlot img s)"

definition show_result :: "capture_result \<Rightarrow> state \<Rightarrow> state" where
  "show_result result s =
     (let s1 = route_outputs (outputs result) s
      in (case images result of
            None \<Rightarrow> s1
          | Some imgs \<Rightarrow> if length imgs > 0 then addPlots imgs s1 else s1))"

text \<open>
  The inner \<^verbatim>\<open>try\<close> block with its \<^verbatim>\<open>finally\<close> (lines 376 to 405), entered once the
  shelter exists. The result is the state together with the error that leaves the
  block, if any. \<^verbatim>\<open>shelter.purge()\<close> is awaited in both cases; when it is rejected,
  its error replaces the one of \<^verbatim>\<open>captureR\<close>.
\<close>

definition log_call :: "webr_call \<Rightarrow> state \<Rightarrow> state" where
  "log_call c s = s\<lparr>webR_calls := webR_calls s @ [c]\<rparr>"

definition capture_and_purge :: "run_reply \<Rightarrow> state \<Rightarrow> jsstring option \<times> state" where
  "capture_and_purge reply s =
     (let (thrown, s1) =
            (case captureR_reply reply of
               Raises msg \<Rightarrow> (Some msg, log_call CaptureR s)
             | Returns result \<Rightarrow> (None, show_result result (log_call CaptureR s)));
          s2 = log_call Purge s1
      in (case purge_reply reply of
            Raises msg \<Rightarrow> (Some msg, s2)
          | Returns _ \<Rightarrow> (thrown, s2)))"

text \<open>The outer \<^verbatim>\<open>try\<close> block with its \<^verbatim>\<open>catch\<close> (lines 373 to 409).\<close>

definition evaluate :: "run_reply \<Rightarrow> state \<Rightarrow> state" where
  "evaluate reply s =
     (let (thrown, s1) =
            (case Shelter_reply reply of
               Raises msg \<Rightarrow> (Some msg, log_call (ShelterNew False) s)
             | Returns _ \<Rightarrow> capture_and_purge reply (log_call (ShelterNew True) s))
      in (case thrown of
            None \<Rightarrow> s1
          | Some msg \<Rightarrow> appendConsole (js ''Error: '' @ msg) Stderr s1))"

text \<open>The echo of the submitted code (lines 368 to 371).\<close>

fun echo_lines :: "nat \<Rightarrow> jsstring list \<Rightarrow> state \<Rightarrow> state" where
  "echo_lines i [] s = s"
| "echo_lines i (line # rest) s =
     echo_lines (Suc i) rest
       (appendConsole ((if i = 0 then js ''> '' else js ''+ '') @ line) Command s)"

definition lock_session :: "state \<Rightarrow> state" where
  "lock_session s =
     setStatus Loading (js ''Running...'')
       (s\<lparr>isRunning := True, runBtn_disabled := True, consoleReadOnly := True\<rparr>)"

definition unlock_session :: "state \<Rightarrow> state" where
  "unlock_session s =
     setStatus Ready (js ''Ready'')
       (s\<lparr>isRunning := False, runBtn_disabled := False, consoleReadOnly := False\<rparr>)"

text \<open>
  \<open>before_unlock\<close> is the state of \<^verbatim>\<open>runCode\<close> when control reaches line 411, where the
  flag \<^verbatim>\<open>isRunning\<close> is reset; \<open>runCode\<close> is the whole function. A help topic that
  trims to the empty string is falsy, so such a request is evaluated like any other code.
\<close>

definition before_unlock :: "run_reply \<Rightarrow> jsstring \<Rightarrow> state \<Rightarrow> state" where
  "before_unlock reply code s =
     evaluate reply (echo_lines 0 (split_lines code) (lock_session s))"

definition helpTopicMatch :: "jsstring \<Rightarrow> jsstring option" where
  "helpTopicMatch code =
     (case isHelpRequest code of
        None \<Rightarrow> None
      | Some topic \<Rightarrow> if truthy topic then Some topic else None)"

definition runCode :: "run_reply \<Rightarrow> jsstring \<Rightarrow> state \<Rightarrow> state" where
  "runCode reply code s =
     (if isRunning s \<or> \<not> webR s \<or> \<not> truthy code then s
      else
        (case helpTopicMatch code of
           Some topic \<Rightarrow>
             getHelp (evalRString_reply reply) topic (appendConsole (js ''> '' @ code) Command s)
         | None \<Rightarrow> unlock_session (before_unlock reply code s)))"

section \<open>Console input and editor\<close>

definition handleConsoleEnter :: "run_reply \<Rightarrow> state \<Rightarrow> state" where
  "handleConsoleEnter reply s =
     (let code = trim (consoleValue s)
      in if truthy code
         then runCode reply code
                (s\<lparr>commandHistory := code # commandHistory s, historyIndex := -1,
                   consoleValue := []\<rparr>)
         else s)"

text \<open>
  \<^verbatim>\<open>setValue\<close> of an undefined history entry raises a TypeError in the widget; the
  handler then stops with the index already changed.
\<close>

definition handleConsoleUp :: "state \<Rightarrow> state" where
  "handleConsoleUp s =
     (if historyIndex s < int (length (commandHistory s)) - 1
      then
        (let s1 = s\<lparr>historyIndex := historyIndex s + 1\<rparr>
         in (case js_index (commandHistory s1) (historyIndex s1) of
               None \<Rightarrow> s1
             | Some entry \<Rightarrow> s1\<lparr>consoleValue := entry\<rparr>))
      else s)"

definition handleConsoleDown :: "state \<Rightarrow> state" where
  "handleConsoleDown s =
     (if historyIndex s > 0
      then
        (let s1 = s\<lparr>historyIndex := historyIndex s - 1\<rparr>
         in (case js_index (commandHistory s1) (historyIndex s1) of
               None \<Rightarrow> s1
             | Some entry \<Rightarrow> s1\<lparr>consoleValue := entry\<rparr>))
      else if historyIndex s = 0
      then s\<lparr>historyIndex := -1, consoleValue := []\<rparr>
      else s)"

text \<open>
  \<^verbatim>\<open>runFromEditor\<close>: the selection if there is one, else the cursor's line, after which
  the cursor moves to the next line if there is one. A line that does not exist is
  \<^verbatim>\<open>undefined\<close>, and \<^verbatim>\<open>code.trim()\<close> then raises a TypeError that ends the handler.
\<close>

definition runFromEditor :: "run_reply \<Rightarrow> state \<Rightarrow> state" where
  "runFromEditor reply s =
     (case editor s of
        None \<Rightarrow> s
      | Some ed \<Rightarrow>
          if truthy (ed_selection ed)
          then (let code = ed_selection ed
                in if truthy (trim code) then runCode reply (trim code) s else s)
          else
            (let line = ed_cursor_line ed;
                 code = js_index (ed_lines ed) (int line);
                 s1 = (if int line < int (length (ed_lines ed)) - 1
                       then s\<lparr>editor := Some (ed\<lparr>ed_cursor_line := line + 1\<rparr>)\<rparr>
                       else s)
             in (case code of
                   None \<Rightarrow> s1
                 | Some c \<Rightarrow> if truthy (trim c) then runCode reply (trim c) s1 else s1)))"

section \<open>Start of the session\<close>

text \<open>
  The answers of the interpreter during \<^verbatim>\<open>initWebR\<close>: the constructor, \<^verbatim>\<open>init\<close>, and
  the three \<^verbatim>\<open>evalR\<close> requests (options, installation, \<^verbatim>\<open>library\<close>). The first
  rejection ends the \<^verbatim>\<open>try\<close> block; the variable \<^verbatim>\<open>webR\<close> is assigned as soon as the
  constructor returns.
\<close>

record init_reply =
  WebR_reply :: "unit outcome"
  init_reply :: "unit outcome"
  options_reply :: "unit outcome"
  install_reply :: "unit outcome"
  library_reply :: "unit outcome"

definition initWebR_try :: "init_reply \<Rightarrow> state \<Rightarrow> jsstring option \<times> state" where
  "initWebR_try reply s =
     (let s0 = setStatus Loading (js ''Initializing WebR...'') s
      in case WebR_reply reply of
           Raises msg \<Rightarrow> (Some msg, s0)
         | Returns _ \<Rightarrow>
        (let s1 = s0\<lparr>webR := True\<rparr>
         in case init_reply reply of
              Raises msg \<Rightarrow> (Some msg, s1)
            | Returns _ \<Rightarrow>
        (let s2 = setStatus Loading (js ''Configuring repositories...'') s1
         in case options_reply reply of
              Raises msg \<Rightarrow> (Some msg, s2)
            | Returns _ \<Rightarrow>
        (let s3 = appendConsole (js ''Installing animovement package...'') System
                    (clearConsole (setStatus Loading (js ''Installing animovement...'') s2))
         in case install_reply reply of
              Raises msg \<Rightarrow> (Some msg, s3)
            | Returns _ \<Rightarrow>
        (let s4 = appendConsole (js ''Loading animovement...'') System s3
         in case library_reply reply of
              Raises msg \<Rightarrow> (Some msg, s4)
            | Returns _ \<Rightarrow>
        (let s5 = appendConsole [] System
                    (appendConsole (js ''Ready! animovement is loaded.'') System s4);
             s6 = setStatus Ready (js ''Ready'') s5
         in (None, s6\<lparr>runBtn_disabled := False, consoleReadOnly := False\<rparr>)))))))"

definition initWebR :: "init_reply \<Rightarrow> state \<Rightarrow> state" where
  "initWebR reply s =
     (let (thrown, s1) = initWebR_try reply s
      in case thrown of
           None \<Rightarrow> s1
         | Some msg \<Rightarrow>
             appendConsole (js ''Error: '' @ msg) Stderr
               (setStatus Error (js ''Initialization failed'') s1))"

text \<open>
  \<^verbatim>\<open>init\<close>: the two widgets are created (\<open>ed\<close> is the editor as CodeMirror builds it
  from the text area and the code of the URL), the console input is made read-only, and
  the interpreter is started.
\<close>

definition init :: "editor_widget \<Rightarrow> init_reply \<Rightarrow> state \<Rightarrow> state" where
  "init ed reply s =
     initWebR reply (s\<lparr>editor := Some ed, consoleValue := [], consoleReadOnly := True\<rparr>)"

section \<open>Events\<close>

text \<open>
  The script runs one handler at a time. An event is a call of \<^verbatim>\<open>init\<close>, something
  the user does in one of the widgets, a key binding or a click; events that reach the
  interpreter carry its answers. \<open>EditorInput\<close> and \<open>ConsoleInput\<close> stand for the user
  editing a widget's content. A handler is taken to run to its end before the next
  event: what happens when an event arrives while \<^verbatim>\<open>runCode\<close> is suspended at an
  \<^verbatim>\<open>await\<close> is described by calling the handler in a state whose flag \<open>isRunning\<close> is set.
\<close>

datatype event =
    Init editor_widget init_reply
  | EditorInput editor_widget
  | ConsoleInput jsstring
  | ConsoleEnter run_reply
  | ConsoleUp
  | ConsoleDown
  | RunFromEditor run_reply
  | ClearConsoleClick
  | ClearHelpClick
  | ClearPlotsClick
  | PlotPrevClick
  | PlotNextClick
  | Keydown key bool

fun step :: "event \<Rightarrow> state \<Rightarrow> state" where
  "step (Init ed reply) s = init ed reply s"
| "step (EditorInput ed) s = (case editor s of None \<Rightarrow> s | Some _ \<Rightarrow> s\<lparr>editor := Some ed\<rparr>)"
| "step (ConsoleInput text) s = s\<lparr>consoleValue := text\<rparr>"
| "step (ConsoleEnter reply) s = handleConsoleEnter reply s"
| "step ConsoleUp s = handleConsoleUp s"
| "step ConsoleDown s = handleConsoleDown s"
| "step (RunFromEditor reply) s = runFromEditor reply s"
| "step ClearConsoleClick s = clearConsole s"
| "step ClearHelpClick s = clearHelp s"
| "step ClearPlotsClick s = clearPlots s"
| "step PlotPrevClick s = plotPrevClick s"
| "step PlotNextClick s = plotNextClick s"
| "step (Keydown k inEditor) s = plotKeydown k inEditor s"

fun run_events :: "event list \<Rightarrow> state \<Rightarrow> state" where
  "run_events [] s = s"
| "run_events (ev # evs) s = run_events evs (step ev s)"

text \<open>
  The operations of the plot gallery alone: \<^verbatim>\<open>addPlot\<close>, \<^verbatim>\<open>clearPlots\<close> and the two
  navigation buttons.
\<close>

datatype gallery_op = Append imageData | Clear | Next | Prev

fun gallery_step :: "gallery_op \<Rightarrow> state \<Rightarrow> state" where
  "gallery_step (Append img) s = addPlot img s"
| "gallery_step Clear s = clearPlots s"
| "gallery_step Next s = plotNextClick s"
| "gallery_step Prev s = plotPrevClick s"

fun run_gallery :: "gallery_op list \<Rightarrow> state \<Rightarrow> state" where
  "run_gallery [] s = s"
| "run_gallery (op # ops) s = run_gallery ops (gallery_step op s)"

text \<open>The module-level variables as their declarations leave them (lines 5 to 12).\<close>

definition fresh :: "state \<Rightarrow> bool" where
  "fresh s \<longleftrightarrow>
     \<not> webR s \<and> editor s = None \<and> \<not> isRunning s \<and> commandHistory s = [] \<and>
     historyIndex s = -1 \<and> plotImages s = [] \<and> currentPlotIndex s = 0"

text \<open>
  Typing a line into the console and pressing Enter, and a series of such submissions,
  each with the interpreter's answers.
\<close>

definition submit :: "run_reply \<times> jsstring \<Rightarrow> state \<Rightarrow> state" where
  "submit sub s = handleConsoleEnter (fst sub) (s\<lparr>consoleValue := snd sub\<rparr>)"

fun submissions :: "(run_reply \<times> jsstring) list \<Rightarrow> state \<Rightarrow> state" where
  "submissions [] s = s"
| "submissions (sub # subs) s = submissions subs (submit sub s)"

section \<open>Concrete sessions\<close>

text \<open>
  A page as the browser hands it to the script, an interpreter that answers every
  request, one whose package installation fails, and the sessions they lead to.
\<close>

definition page_loaded :: state where
  "page_loaded =
     \<lparr>webR = False, webR_calls = [], editor = None, consoleValue = [],
      consoleReadOnly = False, isRunning = False, commandHistory = [], historyIndex = -1,
      plotImages = [], currentPlotIndex = 0, consoleOutput = [],
      status = (Loading, js ''Loading...''), runBtn_disabled = True, helpTopic = [],
      helpContent = HelpPlaceholder, plotsEmpty_shown = True, plotContainer_shown = False,
      plotNav_shown = False, plotImage_src = None, plotCounter = (0, 0),
      plotPrev_disabled = True, plotNext_disabled = True\<rparr>"

definition empty_editor :: editor_widget where
  "empty_editor = \<lparr>ed_lines = [[]], ed_cursor_line = 0, ed_selection = []\<rparr>"

definition init_ok :: init_reply where
  "init_ok =
     \<lparr>WebR_reply = Returns (), init_reply = Returns (), options_reply = Returns (),
      install_reply = Returns (), library_reply = Returns ()\<rparr>"

definition init_install_fails :: init_reply where
  "init_install_fails = init_ok\<lparr>install_reply := Raises (js ''download failed'')\<rparr>"

definition ready_session :: state where
  "ready_session = init empty_editor init_ok page_loaded"

definition one_line_editor :: editor_widget where
  "one_line_editor = \<lparr>ed_lines = [js ''1 + 1''], ed_cursor_line = 0, ed_selection = []\<rparr>"

definition failed_session :: state where
  "failed_session = init one_line_editor init_install_fails page_loaded"

definition prints_two :: capture_result where
  "prints_two = \<lparr>outputs = [\<lparr>out_type = js ''stdout'', out_data = js ''[1] 2''\<rparr>], images = None\<rparr>"

definition reply_ok :: run_reply where
  "reply_ok =
     \<lparr>evalRString_reply = Returns (js ''no help''), Shelter_reply = Returns (),
      captureR_reply = Returns prints_two, purge_reply = Returns ()\<rparr>"

definition reply_purge_fails :: run_reply where
  "reply_purge_fails = reply_ok\<lparr>purge_reply := Raises (js ''channel closed'')\<rparr>"

definition reply_eval_fails :: run_reply where
  "reply_eval_fails = reply_ok\<lparr>captureR_reply := Raises (js ''object not found'')\<rparr>"

section \<open>Vocabulary of the specification\<close>

text \<open>
  The records that the specification speaks of, written from its words: a text is blank
  when it consists of white space only; an output record of the interpreter is shown
  with its own category, a condition message as diagnostic text; the echo of a command
  marks the first line and the continuation lines; a failure is one diagnostic record.
\<close>

definition blank :: "jsstring \<Rightarrow> bool" where
  "blank text \<longleftrightarrow> list_all isTrimmed text"

definition routed :: "output_record \<Rightarrow> (jsstring \<times> console_class) option" where
  "routed out =
     (if out_type out = js ''stdout''
      then (if blank (out_data out) then None else Some (out_data out, Stdout))
      else if out_type out = js ''stderr''
      then (if blank (out_data out) then None else Some (out_data out, Stderr))
      else if out_type out = js ''message''
      then Some (out_data out, Stderr)
      else None)"

definition output_records :: "output_record list \<Rightarrow> (jsstring \<times> console_class) list" where
  "output_records outs = List.map_filter routed outs"

definition echo_records :: "jsstring \<Rightarrow> (jsstring \<times> console_class) list" where
  "echo_records code =
     (case split_lines code of
        [] \<Rightarrow> []
      | l # ls \<Rightarrow> (js ''> '' @ l, Command) # map (\<lambda>l. (js ''+ '' @ l, Command)) ls)"

definition error_record :: "jsstring \<Rightarrow> jsstring \<times> console_class" where
  "error_record msg = (js ''Error: '' @ msg, Stderr)"

text \<open>The shelters that were created and for which no purge was requested.\<close>

definition open_shelters :: "webr_call list \<Rightarrow> int" where
  "open_shelters calls =
     int (length (filter (\<lambda>c. c = ShelterNew True) calls))
     - int (length (filter (\<lambda>c. c = Purge) calls))"

text \<open>
  The two patterns of a help request as the strings they describe: a question mark and
  a topic on one line; or \<^verbatim>\<open>help(\<close>, an optional quote, a topic free of quotes and
  closing parentheses, an optional quote and \<^verbatim>\<open>)\<close>.
\<close>

definition question_form :: "jsstring \<Rightarrow> jsstring \<Rightarrow> bool" where
  "question_form code topic \<longleftrightarrow>
     code = js ''?'' @ topic \<and> topic \<noteq> [] \<and> list_all (\<lambda>c. \<not> isLineTerminator c) topic"

definition quote_options :: "jsstring list" where
  "quote_options = [[], [of_char CHR 0x22], [of_char CHR 0x27]]"

definition help_call_form :: "jsstring \<Rightarrow> jsstring \<Rightarrow> bool" where
  "help_call_form code topic \<longleftrightarrow>
     topic \<noteq> [] \<and> list_all inTopicClass topic \<and>
     list_ex (\<lambda>q1. list_ex (\<lambda>q2. code = js ''help('' @ q1 @ topic @ q2 @ js '')'')
                quote_options) quote_options"

text \<open>
  The plot gallery is either empty with index 0, or its index points at an image and
  the counter shows the 1-based position and the total. The history cursor is \<open>-1\<close> or
  an index of the history, and every history entry is a non-empty trimmed string.
\<close>

definition plot_inv :: "state \<Rightarrow> bool" where
  "plot_inv s \<longleftrightarrow>
     (plotImages s = [] \<and> currentPlotIndex s = 0) \<or>
     (0 \<le> currentPlotIndex s \<and> currentPlotIndex s < int (length (plotImages s)) \<and>
      plotCounter s = (currentPlotIndex s + 1, int (length (plotImages s))))"

text \<open>What the plot panel shows: nothing, or an image with its position and the total.\<close>

definition currentView :: "state \<Rightarrow> (dataUrl option \<times> int \<times> int) option" where
  "currentView s = (if plotsEmpty_shown s then None else Some (plotImage_src s, plotCounter s))"

definition history_inv :: "state \<Rightarrow> bool" where
  "history_inv s \<longleftrightarrow>
     - 1 \<le> historyIndex s \<and> historyIndex s < int (length (commandHistory s)) \<and>
     list_all (\<lambda>entry. entry \<noteq> [] \<and> trim entry = entry) (commandHistory s)"

section \<open>Facts about strings\<close>

lemma dropWhile_all_iff:
  "(\<forall>x\<in>set (dropWhile P xs). P x) \<longleftrightarrow> (\<forall>x\<in>set xs. P x)"
proof
  assume a: "\<forall>x\<in>set (dropWhile P xs). P x"
  have "dropWhile P xs = []"
  proof (rule ccontr)
    assume n: "dropWhile P xs \<noteq> []"
    then have "\<not> P (hd (dropWhile P xs))" by (rule hd_dropWhile)
    moreover have "hd (dropWhile P xs) \<in> set (dropWhile P xs)" using n by simp
    ultimately show False using a by blast
  qed
  then show "\<forall>x\<in>set xs. P x" by (simp add: dropWhile_eq_Nil_conv)
next
  assume "\<forall>x\<in>set xs. P x"
  then show "\<forall>x\<in>set (dropWhile P xs). P x" by (auto dest: set_dropWhileD)
qed

lemma trim_Nil_iff: "trim s = [] \<longleftrightarrow> list_all isTrimmed s"
  by (simp add: trim_def trimEnd_def trimStart_def dropWhile_eq_Nil_conv list_all_iff
      dropWhile_all_iff)

lemma trimStart_idem_aux: "xs \<noteq> [] \<Longrightarrow> \<not> P (hd xs) \<Longrightarrow> dropWhile P xs = xs"
  by (cases xs) auto

lemma hd_trimEnd:
  assumes "rev (dropWhile P (rev t)) \<noteq> []"
  shows "hd (rev (dropWhile P (rev t))) = hd t"
proof -
  obtain ys where t: "t = rev (dropWhile P (rev t)) @ ys"
    by (metis rev_append rev_rev_ident takeWhile_dropWhile_id)
  from assms show ?thesis
    by (subst (2) t) simp
qed

lemma trim_nonempty_ends:
  assumes "trim s \<noteq> []"
  shows "\<not> isTrimmed (hd (trim s))" and "\<not> isTrimmed (last (trim s))"
proof -
  let ?t = "dropWhile isTrimmed s"
  let ?u = "dropWhile isTrimmed (rev ?t)"
  have u: "?u \<noteq> []"
    using assms unfolding trim_def trimEnd_def trimStart_def rev_is_Nil_conv .
  have t: "?t \<noteq> []"
  proof
    assume a: "?t = []"
    have "?u = []" unfolding a by simp
    with u show False by blast
  qed
  have "\<not> isTrimmed (hd ?u)" using u by (rule hd_dropWhile)
  then show "\<not> isTrimmed (last (trim s))"
    using u by (simp add: trim_def trimEnd_def trimStart_def last_rev)
  have "hd (trim s) = hd ?t"
    using assms unfolding trim_def trimEnd_def trimStart_def by (rule hd_trimEnd)
  moreover have "\<not> isTrimmed (hd ?t)" using t by (rule hd_dropWhile)
  ultimately show "\<not> isTrimmed (hd (trim s))" by simp
qed

lemma trim_fixed:
  assumes "s \<noteq> []" "\<not> isTrimmed (hd s)" "\<not> isTrimmed (last s)"
  shows "trim s = s"
proof -
  have 1: "dropWhile isTrimmed s = s" using assms by (simp add: trimStart_idem_aux)
  have "dropWhile isTrimmed (rev s) = rev s"
    using assms by (intro trimStart_idem_aux) (simp_all add: hd_rev)
  with 1 show ?thesis by (simp add: trim_def trimEnd_def trimStart_def)
qed

lemma trim_idem: "trim (trim s) = trim s"
proof (cases "trim s = []")
  case True
  have "trim [] = []" by (simp add: trim_def trimEnd_def trimStart_def)
  with True show ?thesis by simp
next
  case False
  then show ?thesis by (intro trim_fixed trim_nonempty_ends)
qed

section \<open>The two patterns of a help request\<close>

lemma match_question_iff: "match_question code = Some topic \<longleftrightarrow> question_form code topic"
  by (cases code) (auto simp: match_question_def question_form_def js_def list_ex_iff list_all_iff)

lemma strip_prefix_Some_iff: "strip_prefix p s = Some r \<longleftrightarrow> s = p @ r"
  by (induction p s rule: strip_prefix.induct) auto

lemma optional_quote_split:
  "\<exists>q \<in> set quote_options. s = q @ optional_quote s"
  by (cases s) (auto simp: optional_quote_def quote_options_def isQuote_def)

lemma optional_quote_topic:
  "topic \<noteq> [] \<Longrightarrow> list_all inTopicClass topic \<Longrightarrow> q \<in> set quote_options \<Longrightarrow>
   optional_quote (q @ topic @ rest) = topic @ rest"
  by (cases topic) (auto simp: optional_quote_def quote_options_def isQuote_def inTopicClass_def)

lemma optional_quote_close:
  "q \<in> set quote_options \<Longrightarrow> optional_quote (q @ js '')'') = js '')''"
  by (auto simp: optional_quote_def quote_options_def isQuote_def js_def)

lemma not_inTopicClass_after:
  "q \<in> set quote_options \<Longrightarrow> \<not> inTopicClass (hd (q @ js '')''))"
  by (auto simp: quote_options_def isQuote_def inTopicClass_def js_def)

lemma takeWhile_topic:
  assumes "list_all inTopicClass topic" "q \<in> set quote_options"
  shows "takeWhile inTopicClass (topic @ q @ js '')'') = topic"
    and "dropWhile inTopicClass (topic @ q @ js '')'') = q @ js '')''"
proof -
  obtain c cs where r: "q @ js '')'' = c # cs" by (cases "q @ js '')''") (auto simp: js_def)
  with not_inTopicClass_after [OF assms(2)] have c: "\<not> inTopicClass c" by simp
  from assms(1) have a: "\<forall>x \<in> set topic. inTopicClass x" by (simp add: list_all_iff)
  show "takeWhile inTopicClass (topic @ q @ js '')'') = topic"
    using a c by (simp add: r takeWhile_append2 del: append_assoc)
  show "dropWhile inTopicClass (topic @ q @ js '')'') = q @ js '')''"
    using a c by (simp add: r dropWhile_append2 del: append_assoc)
qed

lemma match_help_call_complete:
  assumes "help_call_form code topic"
  shows "match_help_call code = Some topic"
proof -
  from assms obtain q1 q2 where q: "q1 \<in> set quote_options" "q2 \<in> set quote_options"
    and code: "code = js ''help('' @ q1 @ topic @ q2 @ js '')''"
    and t: "topic \<noteq> []" "list_all inTopicClass topic"
    by (auto simp: help_call_form_def list_ex_iff)
  have 1: "strip_prefix (js ''help('') code = Some (q1 @ topic @ q2 @ js '')'')"
    by (simp add: strip_prefix_Some_iff code)
  have 2: "optional_quote (q1 @ topic @ q2 @ js '')'') = topic @ q2 @ js '')''"
    using t q(1) by (rule optional_quote_topic)
  show ?thesis
    by (simp add: match_help_call_def 1 2 Let_def takeWhile_topic [OF t(2) q(2)]
        optional_quote_close [OF q(2)] t(1))
qed

lemma match_help_call_sound:
  assumes "match_help_call code = Some topic"
  shows "help_call_form code topic"
proof -
  from assms obtain r0 where r0: "strip_prefix (js ''help('') code = Some r0"
    by (auto simp: match_help_call_def split: option.splits)
  let ?r1 = "optional_quote r0"
  let ?d = "dropWhile inTopicClass ?r1"
  from assms r0 have topic: "topic = takeWhile inTopicClass ?r1" and ne: "topic \<noteq> []"
    and close: "optional_quote ?d = js '')''"
    by (auto simp: match_help_call_def Let_def split: if_splits)
  obtain q1 where q1: "q1 \<in> set quote_options" "r0 = q1 @ ?r1"
    using optional_quote_split [of r0] by blast
  obtain q2 where q2: "q2 \<in> set quote_options" "?d = q2 @ optional_quote ?d"
    using optional_quote_split [of ?d] by blast
  have "?r1 = topic @ ?d" by (simp add: topic)
  with q1 q2 close have "r0 = q1 @ topic @ q2 @ js '')''" by simp
  moreover from r0 have "code = js ''help('' @ r0" by (simp add: strip_prefix_Some_iff)
  moreover have "list_all inTopicClass topic"
    by (auto simp: topic list_all_iff dest: set_takeWhileD)
  ultimately show ?thesis
    using ne q1(1) q2(1) by (auto simp: help_call_form_def list_ex_iff)
qed

lemma match_help_call_iff: "match_help_call code = Some topic \<longleftrightarrow> help_call_form code topic"
  using match_help_call_sound match_help_call_complete by blast

lemma forms_exclusive: "\<not> (question_form code topic \<and> help_call_form code topic')"
  by (auto simp: question_form_def help_call_form_def list_ex_iff js_def)

lemma isHelpRequest_forms:
  "question_form code topic \<or> help_call_form code topic \<Longrightarrow>
   isHelpRequest code = Some (trim topic)"
proof (erule disjE)
  assume "question_form code topic"
  then show ?thesis by (simp add: isHelpRequest_def match_question_iff [symmetric])
next
  assume h: "help_call_form code topic"
  then have "match_question code = None"
    using forms_exclusive [of code _ topic] match_question_iff [of code]
    by (cases "match_question code") auto
  with h show ?thesis by (simp add: isHelpRequest_def match_help_call_iff [symmetric])
qed

lemma isHelpRequest_None_iff:
  "isHelpRequest code = None \<longleftrightarrow> \<not> (\<exists>topic. question_form code topic \<or> help_call_form code topic)"
  by (auto simp: isHelpRequest_def match_question_iff [symmetric] match_help_call_iff [symmetric]
      split: option.splits)

lemmas string_eval = js_def trim_def trimEnd_def trimStart_def isTrimmed_def isWhiteSpace_def
  isLineTerminator_def truthy_def

lemmas help_eval = isHelpRequest_def match_question_def match_help_call_def optional_quote_def
  isQuote_def inTopicClass_def Let_def

text \<open>
  Claim C5. \<^verbatim>\<open>isHelpRequest\<close> is a function of the string alone. A string of the
  question-mark form or of the \<^verbatim>\<open>help(...)\<close> form (quotes optional) yields its topic,
  trimmed; a string of neither form yields \<^verbatim>\<open>null\<close>, and only such a string does. No
  string has both forms, so the first pattern never competes with the second. The three
  examples of the specification evaluate as stated.
\<close>

theorem isHelpRequest_pattern_match:
  "(question_form code topic \<or> help_call_form code topic \<longrightarrow>
      isHelpRequest code = Some (trim topic)) \<and>
   (isHelpRequest code = None \<longleftrightarrow>
      \<not> (\<exists>topic. question_form code topic \<or> help_call_form code topic)) \<and>
   \<not> (question_form code topic \<and> help_call_form code topic') \<and>
   isHelpRequest (js ''?mean'') = Some (js ''mean'') \<and>
   isHelpRequest (js ''help('' @ [of_char CHR 0x22] @ js ''plot'' @ [of_char CHR 0x22] @ js '')'') =
     Some (js ''plot'') \<and>
   isHelpRequest (js ''1 + 1'') = None"
proof -
  have 1: "isHelpRequest (js ''?mean'') = Some (js ''mean'')"
    by (simp add: help_eval string_eval)
  have 2: "isHelpRequest (js ''help('' @ [of_char CHR 0x22] @ js ''plot'' @ [of_char CHR 0x22] @ js '')'') =
     Some (js ''plot'')"
    by (simp add: help_eval string_eval)
  have 3: "isHelpRequest (js ''1 + 1'') = None"
    by (simp add: help_eval string_eval)
  from 1 2 3 show ?thesis
    using isHelpRequest_forms [of code topic] isHelpRequest_None_iff [of code]
      forms_exclusive [of code topic topic']
    by (simp only: simp_thms) blast
qed

theorem isHelpRequest_pattern_match_witness:
  "question_form (js ''? mean '') (js '' mean '') \<and>
   isHelpRequest (js ''? mean '') = Some (js ''mean'') \<and>
   help_call_form (js ''help(plot)'') (js ''plot'') \<and>
   isHelpRequest (js ''help(plot)'') = Some (js ''plot'')"
proof -
  have q: "question_form (js ''? mean '') (js '' mean '')"
    by (simp add: question_form_def string_eval)
  have h: "help_call_form (js ''help(plot)'') (js ''plot'')"
    by (simp add: help_call_form_def quote_options_def inTopicClass_def isQuote_def js_def)
  from isHelpRequest_pattern_match [of "js ''? mean ''" "js '' mean ''"] q
  have "isHelpRequest (js ''? mean '') = Some (trim (js '' mean ''))" by blast
  moreover from isHelpRequest_pattern_match [of "js ''help(plot)''" "js ''plot''"] h
  have "isHelpRequest (js ''help(plot)'') = Some (trim (js ''plot''))" by blast
  ultimately show ?thesis using q h by (simp add: string_eval)
qed

section \<open>Output routing\<close>

lemma consoleOutput_route_output:
  "consoleOutput (route_output out s) = consoleOutput s @ output_records [out]"
  by (simp add: route_output_def output_records_def routed_def List.map_filter_simps
      blank_def truthy_def trim_Nil_iff appendConsole_def js_def)

lemma consoleOutput_route_outputs:
  "consoleOutput (route_outputs outs s) = consoleOutput s @ output_records outs"
proof (induction outs arbitrary: s)
  case Nil
  then show ?case by (simp add: output_records_def List.map_filter_simps)
next
  case (Cons out outs)
  have "output_records (out # outs) = output_records [out] @ output_records outs"
    by (simp add: output_records_def List.map_filter_simps split: option.split)
  with Cons show ?case by (simp add: consoleOutput_route_output)
qed

lemma consoleOutput_addPlots: "consoleOutput (addPlots imgs s) = consoleOutput s"
  by (induction imgs arbitrary: s) (simp_all add: addPlot_def updatePlotDisplay_def Let_def)

lemma consoleOutput_show_result:
  "consoleOutput (show_result result s) = consoleOutput s @ output_records (outputs result)"
  by (simp add: show_result_def Let_def consoleOutput_addPlots consoleOutput_route_outputs
      split: option.split)

text \<open>
  Claim C4. The output records of an evaluation result reach the console in the order
  of their emission: a \<^verbatim>\<open>stdout\<close> or \<^verbatim>\<open>stderr\<close> record whose text is blank is left out,
  any other one is appended with its own category, and a \<^verbatim>\<open>message\<close> record is appended
  as diagnostic text whatever its text is, the empty text included. The loop of
  \<^verbatim>\<open>runCode\<close> and the whole treatment of a result append exactly the records that
  \<open>output_records\<close> lists.
\<close>

theorem outputs_routed_in_order:
  "consoleOutput (route_outputs outs s) = consoleOutput s @ output_records outs \<and>
   consoleOutput (show_result result s) = consoleOutput s @ output_records (outputs result) \<and>
   output_records (outs @ outs') = output_records outs @ output_records outs' \<and>
   output_records [\<lparr>out_type = js ''message'', out_data = text\<rparr>] = [(text, Stderr)] \<and>
   output_records [\<lparr>out_type = js ''stdout'', out_data = text\<rparr>] =
     (if blank text then [] else [(text, Stdout)]) \<and>
   output_records [\<lparr>out_type = js ''stderr'', out_data = text\<rparr>] =
     (if blank text then [] else [(text, Stderr)])"
proof -
  have "output_records (outs @ outs') = output_records outs @ output_records outs'"
    by (simp add: output_records_def List.map_filter_def)
  moreover have "output_records [\<lparr>out_type = js ''message'', out_data = text\<rparr>] = [(text, Stderr)]"
    by (simp add: output_records_def routed_def List.map_filter_simps js_def)
  moreover have "output_records [\<lparr>out_type = js ''stdout'', out_data = text\<rparr>] =
     (if blank text then [] else [(text, Stdout)])"
    by (simp add: output_records_def routed_def List.map_filter_simps js_def)
  moreover have "output_records [\<lparr>out_type = js ''stderr'', out_data = text\<rparr>] =
     (if blank text then [] else [(text, Stderr)])"
    by (simp add: output_records_def routed_def List.map_filter_simps js_def)
  ultimately show ?thesis
    by (simp only: consoleOutput_route_outputs consoleOutput_show_result simp_thms)
qed

theorem outputs_routed_in_order_witness:
  "consoleOutput
     (route_outputs
        [\<lparr>out_type = js ''stdout'', out_data = js ''  ''\<rparr>,
         \<lparr>out_type = js ''message'', out_data = []\<rparr>,
         \<lparr>out_type = js ''stdout'', out_data = js ''[1] 2''\<rparr>,
         \<lparr>out_type = js ''stderr'', out_data = []\<rparr>,
         \<lparr>out_type = js ''stderr'', out_data = js ''Warning''\<rparr>] page_loaded) =
     [([], Stderr), (js ''[1] 2'', Stdout), (js ''Warning'', Stderr)]"
  using outputs_routed_in_order
    [of "[\<lparr>out_type = js ''stdout'', out_data = js ''  ''\<rparr>,
          \<lparr>out_type = js ''message'', out_data = []\<rparr>,
          \<lparr>out_type = js ''stdout'', out_data = js ''[1] 2''\<rparr>,
          \<lparr>out_type = js ''stderr'', out_data = []\<rparr>,
          \<lparr>out_type = js ''stderr'', out_data = js ''Warning''\<rparr>]" page_loaded]
  by (simp add: output_records_def routed_def List.map_filter_simps js_def blank_def
      isTrimmed_def isWhiteSpace_def isLineTerminator_def page_loaded_def)

section \<open>The plot gallery\<close>

lemma js_index_last: "js_index (xs @ [x]) (int (length xs)) = Some x"
  by (simp add: js_index_def)

text \<open>
  Claim C8. In every state, and so after any series of gallery operations, a call of
  \<^verbatim>\<open>addPlot\<close> puts the image at the end of the buffer and makes that last position the
  current index; the panel then shows the new image with a position equal to the total.
\<close>

theorem addPlot_focuses_newest:
  "plotImages (addPlot img s) = plotImages s @ [toDataUrl img] \<and>
   currentPlotIndex (addPlot img s) = int (length (plotImages (addPlot img s))) - 1 \<and>
   currentView (addPlot img s) =
     Some (toDataUrl img, int (length (plotImages (addPlot img s))),
           int (length (plotImages (addPlot img s))))"
  by (simp add: addPlot_def updatePlotDisplay_def currentView_def Let_def js_index_last)

theorem addPlot_focuses_newest_witness:
  "currentView (addPlot (UrlString (js ''b'')) (addPlot (UrlString (js ''a'')) page_loaded)) =
     Some (Some (Url (js ''b'')), 2, 2)"
  using addPlot_focuses_newest
    [of "UrlString (js ''b'')" "addPlot (UrlString (js ''a'')) page_loaded"]
    addPlot_focuses_newest [of "UrlString (js ''a'')" page_loaded]
  by (simp add: toDataUrl_def page_loaded_def)

section \<open>The loops of runCode as single updates\<close>

lemma route_outputs_eq:
  "route_outputs outs s = s\<lparr>consoleOutput := consoleOutput s @ output_records outs\<rparr>"
proof (induction outs arbitrary: s)
  case Nil
  then show ?case by (simp add: output_records_def List.map_filter_simps)
next
  case (Cons out outs)
  have 1: "route_output out s = s\<lparr>consoleOutput := consoleOutput s @ output_records [out]\<rparr>"
    by (simp add: route_output_def output_records_def routed_def List.map_filter_simps
        blank_def truthy_def trim_Nil_iff appendConsole_def js_def)
  have 2: "output_records (out # outs) = output_records [out] @ output_records outs"
    by (simp add: output_records_def List.map_filter_simps split: option.split)
  show ?case by (simp add: Cons 1 2)
qed

lemma echo_lines_Suc:
  "echo_lines (Suc i) ls s =
     s\<lparr>consoleOutput := consoleOutput s @ map (\<lambda>l. (js ''+ '' @ l, Command)) ls\<rparr>"
  by (induction ls arbitrary: i s) (simp_all add: appendConsole_def)

lemma split_lines_not_Nil: "split_lines code \<noteq> []"
  by (induction code) (simp_all split: list.split)

lemma echo_lines_eq:
  "echo_lines 0 (split_lines code) s = s\<lparr>consoleOutput := consoleOutput s @ echo_records code\<rparr>"
proof (cases "split_lines code")
  case Nil
  then show ?thesis by (simp add: split_lines_not_Nil)
next
  case (Cons l ls)
  then show ?thesis by (simp add: echo_records_def echo_lines_Suc appendConsole_def)
qed

lemma addPlots_frame:
  "webR (addPlots imgs s) = webR s \<and> webR_calls (addPlots imgs s) = webR_calls s \<and>
   editor (addPlots imgs s) = editor s \<and> consoleValue (addPlots imgs s) = consoleValue s \<and>
   consoleReadOnly (addPlots imgs s) = consoleReadOnly s \<and>
   isRunning (addPlots imgs s) = isRunning s \<and>
   commandHistory (addPlots imgs s) = commandHistory s \<and>
   historyIndex (addPlots imgs s) = historyIndex s \<and>
   consoleOutput (addPlots imgs s) = consoleOutput s \<and> status (addPlots imgs s) = status s \<and>
   runBtn_disabled (addPlots imgs s) = runBtn_disabled s"
  by (induction imgs arbitrary: s) (simp_all add: addPlot_def updatePlotDisplay_def Let_def)

section \<open>The gallery invariant\<close>

lemma plot_inv_cong:
  "plotImages t = plotImages s \<Longrightarrow> currentPlotIndex t = currentPlotIndex s \<Longrightarrow>
   plotCounter t = plotCounter s \<Longrightarrow> plot_inv t = plot_inv s"
  by (simp add: plot_inv_def)

lemma plot_inv_addPlot: "plot_inv (addPlot img s)"
  by (simp add: plot_inv_def addPlot_def updatePlotDisplay_def Let_def)

lemma plot_inv_addPlots: "plot_inv s \<Longrightarrow> plot_inv (addPlots imgs s)"
  by (induction imgs arbitrary: s) (simp_all add: plot_inv_addPlot)

lemma plot_inv_clearPlots: "plot_inv (clearPlots s)"
  by (simp add: plot_inv_def clearPlots_def updatePlotDisplay_def)

lemma plot_inv_plotPrevClick: "plot_inv s \<Longrightarrow> plot_inv (plotPrevClick s)"
  by (auto simp: plot_inv_def plotPrevClick_def updatePlotDisplay_def)

lemma plot_inv_plotNextClick: "plot_inv s \<Longrightarrow> plot_inv (plotNextClick s)"
  by (auto simp: plot_inv_def plotNextClick_def updatePlotDisplay_def)

lemma plot_inv_plotKeydown: "plot_inv s \<Longrightarrow> plot_inv (plotKeydown k e s)"
  by (auto simp: plot_inv_def plotKeydown_def updatePlotDisplay_def)

lemma plot_inv_show_result: "plot_inv s \<Longrightarrow> plot_inv (show_result result s)"
proof -
  assume a: "plot_inv s"
  have "plot_inv (route_outputs (outputs result) s)"
    using a by (simp add: route_outputs_eq plot_inv_def)
  then show ?thesis
    by (simp add: show_result_def Let_def plot_inv_addPlots split: option.split)
qed

lemma plot_inv_log_call: "plot_inv (log_call c s) = plot_inv s"
  by (simp add: log_call_def plot_inv_def)

lemma plot_inv_appendConsole: "plot_inv (appendConsole text ty s) = plot_inv s"
  by (simp add: appendConsole_def plot_inv_def)

lemma plot_inv_capture_and_purge:
  "plot_inv s \<Longrightarrow> plot_inv (snd (capture_and_purge reply s))"
  by (simp add: capture_and_purge_def Let_def plot_inv_log_call plot_inv_show_result
      split: outcome.split prod.split)

lemma plot_inv_evaluate: "plot_inv s \<Longrightarrow> plot_inv (evaluate reply s)"
  using plot_inv_capture_and_purge [of "log_call (ShelterNew True) s" reply]
  by (auto simp: evaluate_def Let_def plot_inv_log_call plot_inv_appendConsole
      split: outcome.split prod.split option.split)

lemma plot_inv_runCode: "plot_inv s \<Longrightarrow> plot_inv (runCode reply code s)"
proof -
  assume a: "plot_inv s"
  have "plot_inv (echo_lines 0 (split_lines code) (lock_session s))"
    using a by (simp add: echo_lines_eq lock_session_def setStatus_def plot_inv_def)
  then have "plot_inv (before_unlock reply code s)"
    by (simp add: before_unlock_def plot_inv_evaluate)
  then have 1: "plot_inv (unlock_session (before_unlock reply code s))"
    by (simp add: unlock_session_def setStatus_def plot_inv_def)
  have 2: "plot_inv (getHelp hr topic (appendConsole line cls s))" for hr topic line cls
    using a by (simp add: getHelp_def displayHelp_def appendConsole_def plot_inv_def Let_def
        split: outcome.split)
  show ?thesis using a 1 2 by (simp add: runCode_def split: option.split)
qed

lemma show_result_frame:
  "webR (show_result res s) = webR s \<and> webR_calls (show_result res s) = webR_calls s \<and>
   editor (show_result res s) = editor s \<and> consoleValue (show_result res s) = consoleValue s \<and>
   consoleReadOnly (show_result res s) = consoleReadOnly s \<and>
   isRunning (show_result res s) = isRunning s \<and>
   commandHistory (show_result res s) = commandHistory s \<and>
   historyIndex (show_result res s) = historyIndex s \<and>
   status (show_result res s) = status s \<and>
   runBtn_disabled (show_result res s) = runBtn_disabled s"
  by (simp add: show_result_def Let_def addPlots_frame route_outputs_eq split: option.split)

lemma capture_and_purge_frame:
  "webR (snd (capture_and_purge r s)) = webR s \<and>
   editor (snd (capture_and_purge r s)) = editor s \<and>
   consoleValue (snd (capture_and_purge r s)) = consoleValue s \<and>
   consoleReadOnly (snd (capture_and_purge r s)) = consoleReadOnly s \<and>
   isRunning (snd (capture_and_purge r s)) = isRunning s \<and>
   commandHistory (snd (capture_and_purge r s)) = commandHistory s \<and>
   historyIndex (snd (capture_and_purge r s)) = historyIndex s \<and>
   status (snd (capture_and_purge r s)) = status s \<and>
   runBtn_disabled (snd (capture_and_purge r s)) = runBtn_disabled s"
  by (simp add: capture_and_purge_def Let_def log_call_def show_result_frame
      split: outcome.split prod.split)

lemma evaluate_frame:
  "webR (evaluate r s) = webR s \<and> editor (evaluate r s) = editor s \<and>
   consoleValue (evaluate r s) = consoleValue s \<and>
   consoleReadOnly (evaluate r s) = consoleReadOnly s \<and>
   isRunning (evaluate r s) = isRunning s \<and>
   commandHistory (evaluate r s) = commandHistory s \<and>
   historyIndex (evaluate r s) = historyIndex s \<and>
   status (evaluate r s) = status s \<and>
   runBtn_disabled (evaluate r s) = runBtn_disabled s"
proof (cases "Shelter_reply r")
  case (Raises msg)
  then show ?thesis
    by (simp add: evaluate_def log_call_def appendConsole_def)
next
  case (Returns u)
  obtain thrown s1 where c: "capture_and_purge r (log_call (ShelterNew True) s) = (thrown, s1)"
    by (cases "capture_and_purge r (log_call (ShelterNew True) s)")
  from capture_and_purge_frame [of r "log_call (ShelterNew True) s"] c
  have "webR s1 = webR s \<and> editor s1 = editor s \<and> consoleValue s1 = consoleValue s \<and>
    consoleReadOnly s1 = consoleReadOnly s \<and> isRunning s1 = isRunning s \<and>
    commandHistory s1 = commandHistory s \<and> historyIndex s1 = historyIndex s \<and>
    status s1 = status s \<and> runBtn_disabled s1 = runBtn_disabled s"
    by (simp add: log_call_def)
  with Returns c show ?thesis
    by (simp add: evaluate_def appendConsole_def split: option.split)
qed

lemma runCode_frame:
  "webR (runCode r code s) = webR s \<and> editor (runCode r code s) = editor s \<and>
   consoleValue (runCode r code s) = consoleValue s \<and>
   commandHistory (runCode r code s) = commandHistory s \<and>
   historyIndex (runCode r code s) = historyIndex s"
  by (simp add: runCode_def before_unlock_def unlock_session_def lock_session_def
      setStatus_def evaluate_frame echo_lines_eq getHelp_def displayHelp_def
      appendConsole_def Let_def split: option.split outcome.split)

lemma runFromEditor_frame:
  "webR (runFromEditor r s) = webR s \<and>
   consoleValue (runFromEditor r s) = consoleValue s \<and>
   commandHistory (runFromEditor r s) = commandHistory s \<and>
   historyIndex (runFromEditor r s) = historyIndex s"
  by (simp add: runFromEditor_def runCode_frame Let_def split: option.split)

lemma init_frame:
  "commandHistory (init ed r s) = commandHistory s \<and>
   historyIndex (init ed r s) = historyIndex s \<and>
   plotImages (init ed r s) = plotImages s \<and>
   currentPlotIndex (init ed r s) = currentPlotIndex s \<and>
   plotCounter (init ed r s) = plotCounter s \<and>
   webR_calls (init ed r s) = webR_calls s \<and>
   isRunning (init ed r s) = isRunning s"
  by (simp add: init_def initWebR_def initWebR_try_def Let_def setStatus_def
      appendConsole_def clearConsole_def split: outcome.split)

lemma plot_inv_runFromEditor: "plot_inv s \<Longrightarrow> plot_inv (runFromEditor r s)"
proof -
  assume a: "plot_inv s"
  have "plot_inv (s\<lparr>editor := e\<rparr>)" for e using a by (simp add: plot_inv_def)
  with a show ?thesis
    by (simp add: runFromEditor_def Let_def plot_inv_runCode split: option.split)
qed

lemma plot_inv_handleConsoleEnter: "plot_inv s \<Longrightarrow> plot_inv (handleConsoleEnter r s)"
proof -
  assume a: "plot_inv s"
  have "plot_inv (s\<lparr>commandHistory := h, historyIndex := i, consoleValue := v\<rparr>)" for h i v
    using a by (simp add: plot_inv_def)
  with a show ?thesis
    by (simp add: handleConsoleEnter_def Let_def plot_inv_runCode)
qed

lemma plot_inv_step: "plot_inv s \<Longrightarrow> plot_inv (step ev s)"
proof (cases ev)
  case (Init ed r)
  assume "plot_inv s"
  then show ?thesis using init_frame [of ed r s] Init by (simp add: plot_inv_def)
next
  case (ConsoleEnter r)
  assume "plot_inv s"
  then show ?thesis using ConsoleEnter by (simp add: plot_inv_handleConsoleEnter)
next
  case (RunFromEditor r)
  assume "plot_inv s"
  then show ?thesis using RunFromEditor by (simp add: plot_inv_runFromEditor)
next
  case ClearPlotsClick
  then show ?thesis by (simp add: plot_inv_clearPlots)
next
  case PlotPrevClick
  assume "plot_inv s"
  then show ?thesis using PlotPrevClick by (simp add: plot_inv_plotPrevClick)
next
  case PlotNextClick
  assume "plot_inv s"
  then show ?thesis using PlotNextClick by (simp add: plot_inv_plotNextClick)
next
  case (Keydown k e)
  assume "plot_inv s"
  then show ?thesis using Keydown by (simp add: plot_inv_plotKeydown)
qed (auto simp: plot_inv_def handleConsoleUp_def handleConsoleDown_def clearConsole_def
      clearHelp_def Let_def split: option.split)

lemma plot_inv_run_events: "plot_inv s \<Longrightarrow> plot_inv (run_events evs s)"
  by (induction evs arbitrary: s) (simp_all add: plot_inv_step)

lemma plot_inv_run_gallery: "plot_inv s \<Longrightarrow> plot_inv (run_gallery ops s)"
proof (induction ops arbitrary: s)
  case Nil
  then show ?case by simp
next
  case (Cons op ops)
  have "plot_inv (gallery_step op s)"
    using Cons.prems
    by (cases op) (simp_all add: plot_inv_addPlot plot_inv_clearPlots plot_inv_plotNextClick
        plot_inv_plotPrevClick)
  then show ?case by (simp add: Cons.IH)
qed

lemma fresh_plot_inv: "fresh s \<Longrightarrow> plot_inv s"
  by (simp add: fresh_def plot_inv_def)

subsection \<open>The concrete sessions\<close>

lemmas session_eval = ready_session_def failed_session_def init_def initWebR_def
  initWebR_try_def init_ok_def init_install_fails_def page_loaded_def empty_editor_def
  one_line_editor_def
  setStatus_def appendConsole_def clearConsole_def Let_def

lemma fresh_page_loaded: "fresh page_loaded"
  by (simp add: fresh_def page_loaded_def)

lemma ready_session_history:
  "commandHistory ready_session = [] \<and> historyIndex ready_session = - 1"
  by (simp add: ready_session_def init_frame page_loaded_def)

text \<open>
  Claim C9. Plot navigation saturates: the handlers for the previous plot (button and
  left arrow key) change nothing when the index is 0, and the handlers for the next plot
  change nothing when the index is the last one. In every state reached from the initial
  variables by gallery operations, or by any events of the session, a non-empty gallery
  of \<open>N\<close> images has its 1-based position within 1 and \<open>N\<close>, and the counter shows it.
\<close>

theorem plot_navigation_saturates:
  "(currentPlotIndex s = 0 \<longrightarrow> plotPrevClick s = s \<and> plotKeydown ArrowLeft False s = s) \<and>
   (currentPlotIndex s = int (length (plotImages s)) - 1 \<longrightarrow>
      plotNextClick s = s \<and> plotKeydown ArrowRight False s = s) \<and>
   (fresh s0 \<and> (t = run_gallery ops s0 \<or> t = run_events evs s0) \<and> plotImages t \<noteq> [] \<longrightarrow>
      1 \<le> currentPlotIndex t + 1 \<and> currentPlotIndex t + 1 \<le> int (length (plotImages t)) \<and>
      plotCounter t = (currentPlotIndex t + 1, int (length (plotImages t))))"
proof -
  have "plot_inv t" if "fresh s0" "t = run_gallery ops s0 \<or> t = run_events evs s0"
    using that by (auto simp: fresh_plot_inv plot_inv_run_gallery plot_inv_run_events)
  then show ?thesis
    by (auto simp: plot_inv_def plotPrevClick_def plotNextClick_def plotKeydown_def)
qed

theorem plot_navigation_saturates_witness:
  "plotPrevClick (run_gallery [Append (UrlString (js ''a'')), Append (UrlString (js ''b'')), Prev] page_loaded) =
     run_gallery [Append (UrlString (js ''a'')), Append (UrlString (js ''b'')), Prev] page_loaded \<and>
   plotNextClick (run_gallery [Append (UrlString (js ''a'')), Append (UrlString (js ''b''))] page_loaded) =
     run_gallery [Append (UrlString (js ''a'')), Append (UrlString (js ''b''))] page_loaded \<and>
   plotCounter (run_gallery [Append (UrlString (js ''a'')), Append (UrlString (js ''b'')), Prev] page_loaded) =
     (1, 2)"
proof -
  let ?ops = "[Append (UrlString (js ''a'')), Append (UrlString (js ''b'')), Prev]"
  let ?t = "run_gallery ?ops page_loaded"
  let ?u = "run_gallery [Append (UrlString (js ''a'')), Append (UrlString (js ''b''))] page_loaded"
  have t: "currentPlotIndex ?t = 0 \<and> length (plotImages ?t) = 2"
    by (simp add: addPlot_def plotPrevClick_def updatePlotDisplay_def page_loaded_def Let_def)
  have u: "currentPlotIndex ?u = int (length (plotImages ?u)) - 1"
    by (simp add: addPlot_def updatePlotDisplay_def page_loaded_def Let_def)
  from plot_navigation_saturates [of ?t page_loaded ?t ?ops "[]"] t fresh_page_loaded
  have "plotPrevClick ?t = ?t" and "plotCounter ?t = (1, 2)" by auto
  moreover from plot_navigation_saturates [of ?u page_loaded ?u "[]" "[]"] u
  have "plotNextClick ?u = ?u" by blast
  ultimately show ?thesis by simp
qed

section \<open>History and cursor\<close>

lemma handleConsoleEnter_history:
  "commandHistory (handleConsoleEnter r s) =
     (if trim (consoleValue s) \<noteq> [] then trim (consoleValue s) # commandHistory s
      else commandHistory s) \<and>
   historyIndex (handleConsoleEnter r s) =
     (if trim (consoleValue s) \<noteq> [] then - 1 else historyIndex s)"
  by (simp add: handleConsoleEnter_def Let_def truthy_def runCode_frame)

lemma submit_history:
  "commandHistory (submit sub s) =
     (if trim (snd sub) \<noteq> [] then trim (snd sub) # commandHistory s else commandHistory s) \<and>
   historyIndex (submit sub s) = (if trim (snd sub) \<noteq> [] then - 1 else historyIndex s)"
  by (simp add: submit_def handleConsoleEnter_history)

lemma submissions_history:
  "list_all (\<lambda>sub. trim (snd sub) \<noteq> []) subs \<Longrightarrow>
   commandHistory (submissions subs s) = rev (map (\<lambda>sub. trim (snd sub)) subs) @ commandHistory s \<and>
   historyIndex (submissions subs s) = (if subs = [] then historyIndex s else - 1)"
proof (induction subs arbitrary: s)
  case Nil
  then show ?case by simp
next
  case (Cons sub subs)
  then show ?case by (simp add: submit_history)
qed

text \<open>
  Claim C6. After a series of console submissions whose texts trim to non-empty
  commands, the history holds these commands, the most recent first, in front of what
  it held before, and the cursor is \<open>-1\<close>; for trimmed texts submitted to a new session
  the history is the reversed list of the texts themselves. The editor path
  (\<^verbatim>\<open>runFromEditor\<close>) changes neither the history nor the cursor.
\<close>

theorem history_most_recent_first:
  "(list_all (\<lambda>sub. trim (snd sub) \<noteq> []) subs \<longrightarrow>
      commandHistory (submissions subs s) =
        rev (map (\<lambda>sub. trim (snd sub)) subs) @ commandHistory s \<and>
      historyIndex (submissions subs s) = (if subs = [] then historyIndex s else - 1)) \<and>
   (list_all (\<lambda>sub. snd sub \<noteq> [] \<and> trim (snd sub) = snd sub) subs \<and>
    commandHistory s = [] \<and> historyIndex s = - 1 \<longrightarrow>
      commandHistory (submissions subs s) = rev (map snd subs) \<and>
      historyIndex (submissions subs s) = - 1) \<and>
   commandHistory (runFromEditor r s) = commandHistory s \<and>
   historyIndex (runFromEditor r s) = historyIndex s"
proof -
  have "commandHistory (submissions subs s) = rev (map snd subs) \<and>
      historyIndex (submissions subs s) = - 1"
    if a: "list_all (\<lambda>sub. snd sub \<noteq> [] \<and> trim (snd sub) = snd sub) subs"
      and b: "commandHistory s = []" "historyIndex s = - 1"
  proof -
    from a have 1: "list_all (\<lambda>sub. trim (snd sub) \<noteq> []) subs"
      by (simp add: list_all_iff)
    from a have 2: "map (\<lambda>sub. trim (snd sub)) subs = map snd subs"
      by (simp add: list_all_iff)
    from submissions_history [OF 1, of s] 2 b show ?thesis by simp
  qed
  then show ?thesis
    by (simp add: submissions_history runFromEditor_frame)
qed

theorem history_most_recent_first_witness:
  "commandHistory
     (submissions [(reply_ok, js ''a''), (reply_eval_fails, js '' b '')] ready_session) =
     [js ''b'', js ''a''] \<and>
   historyIndex
     (submissions [(reply_ok, js ''a''), (reply_eval_fails, js '' b '')] ready_session) = - 1 \<and>
   commandHistory (runFromEditor reply_ok ready_session) = []"
  using history_most_recent_first
    [of "[(reply_ok, js ''a''), (reply_eval_fails, js '' b '')]" ready_session reply_ok]
  by (simp add: ready_session_history string_eval)

subsection \<open>Recalling commands\<close>

lemma handleConsoleUp_Suc:
  "historyIndex t = - 1 \<Longrightarrow> n < length (commandHistory t) \<Longrightarrow>
   (handleConsoleUp ^^ Suc n) t = t\<lparr>historyIndex := int n, consoleValue := commandHistory t ! n\<rparr>"
proof (induction n)
  case 0
  then show ?case by (simp add: handleConsoleUp_def Let_def js_index_def)
next
  case (Suc n)
  then have "(handleConsoleUp ^^ Suc n) t =
      t\<lparr>historyIndex := int n, consoleValue := commandHistory t ! n\<rparr>"
    by simp
  then have "(handleConsoleUp ^^ Suc (Suc n)) t =
      handleConsoleUp (t\<lparr>historyIndex := int n, consoleValue := commandHistory t ! n\<rparr>)"
    by simp
  also have "\<dots> = t\<lparr>historyIndex := int (Suc n), consoleValue := commandHistory t ! Suc n\<rparr>"
    using Suc.prems by (simp add: handleConsoleUp_def Let_def js_index_def nat_add_distrib)
  finally show ?case .
qed

lemma handleConsoleUp_oldest:
  "historyIndex t = int (length (commandHistory t)) - 1 \<Longrightarrow> handleConsoleUp t = t"
  by (simp add: handleConsoleUp_def)

text \<open>
  The Up key recalls the most recent command first: after the submissions \<^verbatim>\<open>a\<close> and
  then \<^verbatim>\<open>b\<close>, the first press shows \<^verbatim>\<open>b\<close>, not the oldest command \<^verbatim>\<open>a\<close>. So the
  commands do not come back in the order \<open>s\<^sub>1, s\<^sub>2, \<dots>, s\<^sub>k\<close> of their submission.
\<close>

theorem navigateUp_oldest_first_counterexample:
  "consoleValue
     (handleConsoleUp (submissions [(reply_ok, js ''a''), (reply_ok, js ''b'')] ready_session)) =
     js ''b'' \<and>
   consoleValue
     (handleConsoleUp (submissions [(reply_ok, js ''a''), (reply_ok, js ''b'')] ready_session)) \<noteq>
     js ''a''"
proof -
  let ?t = "submissions [(reply_ok, js ''a''), (reply_ok, js ''b'')] ready_session"
  have "list_all (\<lambda>sub. trim (snd sub) \<noteq> []) [(reply_ok, js ''a''), (reply_ok, js ''b'')]"
    by (simp add: string_eval)
  from submissions_history [OF this, of ready_session]
  have h: "commandHistory ?t = [js ''b'', js ''a'']" and i: "historyIndex ?t = - 1"
    by (simp_all add: ready_session_history string_eval)
  from handleConsoleUp_Suc [of ?t 0] h i
  have "consoleValue (handleConsoleUp ?t) = js ''b''"
    by simp
  then show ?thesis by (simp add: js_def)
qed

text \<open>
  Claim C7, as amended. After \<open>k\<close> non-empty submissions to a session with an empty
  history and cursor \<open>-1\<close>, the \<open>j\<close>-th press of the Up key (\<open>j\<close> from 1 to \<open>k\<close>) puts
  the command of submission \<open>k + 1 - j\<close> into the input line: the most recent command
  comes first and the oldest last. One more press changes nothing.
\<close>

theorem navigateUp_recalls_newest_first:
  "list_all (\<lambda>sub. trim (snd sub) \<noteq> []) subs \<and> commandHistory s = [] \<and> historyIndex s = - 1 \<longrightarrow>
     (\<forall>j < length subs.
        consoleValue ((handleConsoleUp ^^ Suc j) (submissions subs s)) =
          trim (snd (subs ! (length subs - 1 - j)))) \<and>
     (handleConsoleUp ^^ Suc (length subs)) (submissions subs s) =
       (handleConsoleUp ^^ length subs) (submissions subs s)"
proof (intro impI, elim conjE)
  assume a: "list_all (\<lambda>sub. trim (snd sub) \<noteq> []) subs"
    and b: "commandHistory s = []" and c: "historyIndex s = - 1"
  let ?t = "submissions subs s"
  let ?k = "length subs"
  from submissions_history [OF a, of s] b c
  have h: "commandHistory ?t = rev (map (\<lambda>sub. trim (snd sub)) subs)"
    and i: "historyIndex ?t = - 1"
    by simp_all
  have len: "length (commandHistory ?t) = ?k" by (simp add: h)
  have up: "consoleValue ((handleConsoleUp ^^ Suc j) ?t) = trim (snd (subs ! (?k - 1 - j)))"
    if "j < ?k" for j
  proof -
    have "(handleConsoleUp ^^ Suc j) ?t =
        ?t\<lparr>historyIndex := int j, consoleValue := commandHistory ?t ! j\<rparr>"
      using i that len by (intro handleConsoleUp_Suc) simp_all
    moreover have "commandHistory ?t ! j = trim (snd (subs ! (?k - 1 - j)))"
      using that by (simp add: h rev_nth)
    ultimately show ?thesis by simp
  qed
  have stop: "handleConsoleUp ((handleConsoleUp ^^ ?k) ?t) = (handleConsoleUp ^^ ?k) ?t"
  proof (cases ?k)
    case 0
    then show ?thesis using i len by (simp add: handleConsoleUp_oldest)
  next
    case (Suc n)
    have "(handleConsoleUp ^^ Suc n) ?t =
        ?t\<lparr>historyIndex := int n, consoleValue := commandHistory ?t ! n\<rparr>"
      using i Suc len by (intro handleConsoleUp_Suc) simp_all
    then show ?thesis using Suc len
      by (simp del: funpow.simps add: handleConsoleUp_oldest)
  qed
  from up stop show "(\<forall>j < ?k. consoleValue ((handleConsoleUp ^^ Suc j) ?t) =
          trim (snd (subs ! (?k - 1 - j)))) \<and>
     (handleConsoleUp ^^ Suc ?k) ?t = (handleConsoleUp ^^ ?k) ?t"
    by simp
qed

theorem navigateUp_recalls_newest_first_witness:
  "consoleValue
     (handleConsoleUp (submissions [(reply_ok, js ''a''), (reply_ok, js ''b'')] ready_session)) =
     js ''b'' \<and>
   consoleValue
     (handleConsoleUp (handleConsoleUp
        (submissions [(reply_ok, js ''a''), (reply_ok, js ''b'')] ready_session))) = js ''a'' \<and>
   handleConsoleUp (handleConsoleUp (handleConsoleUp
        (submissions [(reply_ok, js ''a''), (reply_ok, js ''b'')] ready_session))) =
     handleConsoleUp (handleConsoleUp
        (submissions [(reply_ok, js ''a''), (reply_ok, js ''b'')] ready_session))"
proof -
  let ?subs = "[(reply_ok, js ''a''), (reply_ok, js ''b'')]"
  let ?t = "submissions ?subs ready_session"
  have hyp: "list_all (\<lambda>sub. trim (snd sub) \<noteq> []) ?subs \<and> commandHistory ready_session = [] \<and>
      historyIndex ready_session = - 1"
    by (simp add: ready_session_history string_eval)
  with navigateUp_recalls_newest_first [of ?subs ready_session]
  have all: "\<forall>j < length ?subs. consoleValue ((handleConsoleUp ^^ Suc j) ?t) =
          trim (snd (?subs ! (length ?subs - 1 - j)))"
    and stop: "(handleConsoleUp ^^ Suc (length ?subs)) ?t = (handleConsoleUp ^^ length ?subs) ?t"
    by blast+
  from all [THEN spec, of 0]
  have "consoleValue ((handleConsoleUp ^^ Suc 0) ?t) = trim (snd (?subs ! (2 - 1 - 0)))"
    by simp
  then have 1: "consoleValue (handleConsoleUp ?t) = js ''b''"
    by (simp add: string_eval)
  from all [THEN spec, of 1]
  have "consoleValue ((handleConsoleUp ^^ Suc 1) ?t) = trim (snd (?subs ! (2 - 1 - 1)))"
    by simp
  then have 2: "consoleValue (handleConsoleUp (handleConsoleUp ?t)) = js ''a''"
    by (simp add: string_eval)
  from stop have 3: "handleConsoleUp (handleConsoleUp (handleConsoleUp ?t)) =
      handleConsoleUp (handleConsoleUp ?t)"
    by (simp add: numeral_2_eq_2)
  from 1 2 3 show ?thesis by simp
qed

lemma history_inv_cong:
  "commandHistory t = commandHistory s \<Longrightarrow> historyIndex t = historyIndex s \<Longrightarrow>
   history_inv t = history_inv s"
  by (simp add: history_inv_def)

lemma history_inv_handleConsoleEnter:
  "history_inv s \<Longrightarrow> history_inv (handleConsoleEnter r s)"
  by (simp add: history_inv_def handleConsoleEnter_history trim_idem)

lemma history_inv_handleConsoleUp: "history_inv s \<Longrightarrow> history_inv (handleConsoleUp s)"
  by (auto simp: history_inv_def handleConsoleUp_def Let_def split: option.split)

lemma history_inv_handleConsoleDown: "history_inv s \<Longrightarrow> history_inv (handleConsoleDown s)"
  by (auto simp: history_inv_def handleConsoleDown_def Let_def split: option.split)

lemma step_history:
  "commandHistory (step ev s) =
     (case ev of
        ConsoleEnter r \<Rightarrow>
          if trim (consoleValue s) \<noteq> [] then trim (consoleValue s) # commandHistory s
          else commandHistory s
      | _ \<Rightarrow> commandHistory s)"
proof (cases ev)
  case (Init ed r)
  then show ?thesis using init_frame [of ed r s] by simp
next
  case (ConsoleEnter r)
  then show ?thesis by (simp add: handleConsoleEnter_history)
next
  case (RunFromEditor r)
  then show ?thesis by (simp add: runFromEditor_frame)
qed (auto simp: handleConsoleUp_def handleConsoleDown_def clearConsole_def clearHelp_def
      clearPlots_def plotPrevClick_def plotNextClick_def plotKeydown_def
      updatePlotDisplay_def Let_def split: option.split)

lemma history_inv_step: "history_inv s \<Longrightarrow> history_inv (step ev s)"
proof (cases ev)
  case (Init ed r)
  assume "history_inv s"
  then show ?thesis using init_frame [of ed r s] Init by (simp add: history_inv_def)
next
  case (ConsoleEnter r)
  assume "history_inv s"
  then show ?thesis using ConsoleEnter by (simp add: history_inv_handleConsoleEnter)
next
  case ConsoleUp
  assume "history_inv s"
  then show ?thesis using ConsoleUp by (simp add: history_inv_handleConsoleUp)
next
  case ConsoleDown
  assume "history_inv s"
  then show ?thesis using ConsoleDown by (simp add: history_inv_handleConsoleDown)
next
  case (RunFromEditor r)
  assume "history_inv s"
  then show ?thesis using RunFromEditor runFromEditor_frame [of r s]
    by (simp add: history_inv_def)
qed (auto simp: history_inv_def clearConsole_def clearHelp_def
      clearPlots_def plotPrevClick_def plotNextClick_def plotKeydown_def
      updatePlotDisplay_def Let_def split: option.split)

lemma history_inv_run_events: "history_inv s \<Longrightarrow> history_inv (run_events evs s)"
  by (induction evs arbitrary: s) (simp_all add: history_inv_step)

lemma fresh_history_inv: "fresh s \<Longrightarrow> history_inv s"
  by (simp add: fresh_def history_inv_def)

lemma handleConsoleUp_recalls:
  assumes "history_inv s" "handleConsoleUp s \<noteq> s"
  shows "consoleValue (handleConsoleUp s) \<in> set (commandHistory s)"
  using assms
  by (auto simp: history_inv_def handleConsoleUp_def Let_def js_index_def split: if_splits)

text \<open>
  Claim C10. In every state reached from the initial variables, each history entry is
  non-empty and equal to its own trim. Only the Enter handler of the console changes
  the history, and it does so by putting the trimmed input in front when that is not
  empty; every other event leaves the history as it is. Whenever the Up key changes
  anything in such a state, the input line then holds a history entry, hence a
  non-empty trimmed command.
\<close>

theorem history_entries_trimmed:
  "(fresh s0 \<longrightarrow>
      list_all (\<lambda>entry. entry \<noteq> [] \<and> trim entry = entry) (commandHistory (run_events evs s0))) \<and>
   commandHistory (step ev s) =
     (case ev of
        ConsoleEnter r \<Rightarrow>
          if trim (consoleValue s) \<noteq> [] then trim (consoleValue s) # commandHistory s
          else commandHistory s
      | _ \<Rightarrow> commandHistory s) \<and>
   (fresh s0 \<and> t = run_events evs s0 \<and> handleConsoleUp t \<noteq> t \<longrightarrow>
      consoleValue (handleConsoleUp t) \<in> set (commandHistory t) \<and>
      consoleValue (handleConsoleUp t) \<noteq> [] \<and>
      trim (consoleValue (handleConsoleUp t)) = consoleValue (handleConsoleUp t))"
proof -
  have inv: "history_inv (run_events evs s0)" if "fresh s0"
    using that by (simp add: fresh_history_inv history_inv_run_events)
  then have 1: "fresh s0 \<longrightarrow>
      list_all (\<lambda>entry. entry \<noteq> [] \<and> trim entry = entry) (commandHistory (run_events evs s0))"
    by (simp add: history_inv_def)
  have 3: "consoleValue (handleConsoleUp t) \<in> set (commandHistory t) \<and>
      consoleValue (handleConsoleUp t) \<noteq> [] \<and>
      trim (consoleValue (handleConsoleUp t)) = consoleValue (handleConsoleUp t)"
    if "fresh s0" "t = run_events evs s0" "handleConsoleUp t \<noteq> t"
  proof -
    have i: "history_inv t" using that inv by simp
    then have m: "consoleValue (handleConsoleUp t) \<in> set (commandHistory t)"
      using that(3) by (rule handleConsoleUp_recalls)
    from i have "\<forall>entry \<in> set (commandHistory t). entry \<noteq> [] \<and> trim entry = entry"
      by (simp add: history_inv_def list_all_iff)
    with m show ?thesis by blast
  qed
  from 1 3 show ?thesis by (simp only: step_history) blast
qed

theorem history_entries_trimmed_witness:
  "commandHistory
     (run_events [Init empty_editor init_ok, ConsoleInput (js '' a ''), ConsoleEnter reply_ok,
                  RunFromEditor reply_ok, ConsoleUp] page_loaded) = [js ''a''] \<and>
   consoleValue
     (run_events [Init empty_editor init_ok, ConsoleInput (js '' a ''), ConsoleEnter reply_ok,
                  RunFromEditor reply_ok, ConsoleUp] page_loaded) = js ''a''"
proof -
  let ?evs = "[Init empty_editor init_ok, ConsoleInput (js '' a ''), ConsoleEnter reply_ok,
                  RunFromEditor reply_ok]"
  let ?t = "run_events ?evs page_loaded"
  have h: "commandHistory ?t = [js ''a''] \<and> historyIndex ?t = - 1"
    by (simp add: handleConsoleEnter_history runFromEditor_frame init_frame page_loaded_def
        string_eval)
  then have up: "handleConsoleUp ?t \<noteq> ?t"
    by (auto simp: handleConsoleUp_def Let_def js_index_def dest: arg_cong [where f = historyIndex])
  from history_entries_trimmed [of page_loaded ?evs ConsoleUp ?t ?t] fresh_page_loaded up h
  have "consoleValue (handleConsoleUp ?t) = js ''a''"
    by simp
  with h show ?thesis
    by (simp add: handleConsoleUp_def Let_def js_index_def split: option.split)
qed

section \<open>One run of code\<close>

lemma capture_and_purge_effect:
  "consoleOutput (snd (capture_and_purge r s)) =
     consoleOutput s @
       (case captureR_reply r of Raises m \<Rightarrow> [] | Returns res \<Rightarrow> output_records (outputs res)) \<and>
   webR_calls (snd (capture_and_purge r s)) = webR_calls s @ [CaptureR, Purge] \<and>
   fst (capture_and_purge r s) =
     (case purge_reply r of
        Raises m \<Rightarrow> Some m
      | Returns u \<Rightarrow> (case captureR_reply r of Raises m \<Rightarrow> Some m | Returns res \<Rightarrow> None))"
  by (simp add: capture_and_purge_def Let_def log_call_def consoleOutput_show_result
      show_result_frame split: outcome.split prod.split)

lemma webR_calls_evaluate:
  "webR_calls (evaluate r s) =
     webR_calls s @
       (case Shelter_reply r of
          Raises m \<Rightarrow> [ShelterNew False]
        | Returns u \<Rightarrow> [ShelterNew True, CaptureR, Purge])"
proof (cases "Shelter_reply r")
  case (Raises m)
  then show ?thesis by (simp add: evaluate_def log_call_def appendConsole_def)
next
  case (Returns u)
  obtain thrown s1 where c: "capture_and_purge r (log_call (ShelterNew True) s) = (thrown, s1)"
    by (cases "capture_and_purge r (log_call (ShelterNew True) s)")
  from capture_and_purge_effect [of r "log_call (ShelterNew True) s"] c
  have "webR_calls s1 = webR_calls s @ [ShelterNew True, CaptureR, Purge]"
    by (simp add: log_call_def)
  with Returns c show ?thesis
    by (simp add: evaluate_def appendConsole_def split: option.split)
qed

lemma consoleOutput_evaluate:
  "consoleOutput (evaluate r s) =
     consoleOutput s @
       (case Shelter_reply r of
          Raises m \<Rightarrow> [error_record m]
        | Returns u \<Rightarrow>
            (case captureR_reply r of
               Raises m \<Rightarrow> []
             | Returns res \<Rightarrow> output_records (outputs res)) @
            (case purge_reply r of
               Raises m \<Rightarrow> [error_record m]
             | Returns u \<Rightarrow>
                 (case captureR_reply r of Raises m \<Rightarrow> [error_record m] | Returns res \<Rightarrow> [])))"
proof (cases "Shelter_reply r")
  case (Raises m)
  then show ?thesis by (simp add: evaluate_def log_call_def appendConsole_def error_record_def)
next
  case (Returns u)
  obtain thrown s1 where c: "capture_and_purge r (log_call (ShelterNew True) s) = (thrown, s1)"
    by (cases "capture_and_purge r (log_call (ShelterNew True) s)")
  from capture_and_purge_effect [of r "log_call (ShelterNew True) s"] c
  have "consoleOutput s1 = consoleOutput s @
       (case captureR_reply r of Raises m \<Rightarrow> [] | Returns res \<Rightarrow> output_records (outputs res))"
    and "thrown = (case purge_reply r of
        Raises m \<Rightarrow> Some m
      | Returns u \<Rightarrow> (case captureR_reply r of Raises m \<Rightarrow> Some m | Returns res \<Rightarrow> None))"
    by (simp_all add: log_call_def)
  with Returns c show ?thesis
    by (simp add: evaluate_def appendConsole_def error_record_def split: option.split outcome.split)
qed

lemma before_unlock_effect:
  "isRunning (before_unlock r code s) \<and>
   webR_calls (before_unlock r code s) =
     webR_calls s @
       (case Shelter_reply r of
          Raises m \<Rightarrow> [ShelterNew False]
        | Returns u \<Rightarrow> [ShelterNew True, CaptureR, Purge])"
  by (simp add: before_unlock_def evaluate_frame webR_calls_evaluate echo_lines_eq
      lock_session_def setStatus_def)

lemma runCode_locked_path:
  "\<not> isRunning s \<Longrightarrow> webR s \<Longrightarrow> truthy code \<Longrightarrow> helpTopicMatch code = None \<Longrightarrow>
   runCode r code s = unlock_session (before_unlock r code s)"
  by (simp add: runCode_def)

lemma consoleOutput_runCode:
  assumes "\<not> isRunning s" "webR s" "truthy code" "helpTopicMatch code = None"
  shows "consoleOutput (runCode r code s) =
     consoleOutput s @ echo_records code @
       (case Shelter_reply r of
          Raises m \<Rightarrow> [error_record m]
        | Returns u \<Rightarrow>
            (case captureR_reply r of
               Raises m \<Rightarrow> []
             | Returns res \<Rightarrow> output_records (outputs res)) @
            (case purge_reply r of
               Raises m \<Rightarrow> [error_record m]
             | Returns u \<Rightarrow>
                 (case captureR_reply r of Raises m \<Rightarrow> [error_record m] | Returns res \<Rightarrow> [])))"
  using assms
  by (simp add: runCode_def before_unlock_def unlock_session_def setStatus_def
      consoleOutput_evaluate echo_lines_eq lock_session_def)

lemma runCode_skip: "isRunning s \<or> \<not> webR s \<or> code = [] \<Longrightarrow> runCode r code s = s"
  by (auto simp: runCode_def truthy_def)

lemma isRunning_runCode: "isRunning (runCode r code s) = isRunning s"
  by (simp add: runCode_def before_unlock_def unlock_session_def lock_session_def
      setStatus_def getHelp_def displayHelp_def appendConsole_def Let_def
      split: option.split outcome.split)

lemma webR_calls_runCode:
  "webR_calls (runCode r code s) =
     webR_calls s @
       (if isRunning s \<or> \<not> webR s \<or> \<not> truthy code then []
        else if helpTopicMatch code \<noteq> None then [HelpLookup]
        else (case Shelter_reply r of
                Raises m \<Rightarrow> [ShelterNew False]
              | Returns u \<Rightarrow> [ShelterNew True, CaptureR, Purge]))"
  by (auto simp: runCode_def unlock_session_def setStatus_def before_unlock_effect
      getHelp_def displayHelp_def appendConsole_def Let_def split: option.split outcome.split)

lemma open_shelters_append:
  "open_shelters (xs @ ys) = open_shelters xs + open_shelters ys"
  by (simp add: open_shelters_def)

lemma open_shelters_runCode:
  "open_shelters (webR_calls (runCode r code s)) = open_shelters (webR_calls s)"
  by (simp add: webR_calls_runCode open_shelters_append)
    (simp add: open_shelters_def split: outcome.split)

lemma open_shelters_step:
  "open_shelters (webR_calls (step ev s)) = open_shelters (webR_calls s)"
proof (cases ev)
  case (Init ed r)
  then show ?thesis using init_frame [of ed r s] by simp
next
  case (ConsoleEnter r)
  then show ?thesis by (simp add: handleConsoleEnter_def Let_def open_shelters_runCode)
next
  case (RunFromEditor r)
  then show ?thesis
    by (simp add: runFromEditor_def Let_def open_shelters_runCode split: option.split)
qed (auto simp: handleConsoleUp_def handleConsoleDown_def clearConsole_def clearHelp_def
      clearPlots_def plotPrevClick_def plotNextClick_def plotKeydown_def
      updatePlotDisplay_def Let_def split: option.split)

lemma open_shelters_run_events:
  "open_shelters (webR_calls (run_events evs s)) = open_shelters (webR_calls s)"
  by (induction evs arbitrary: s) (simp_all add: open_shelters_step)

subsection \<open>Sample runs\<close>

lemma ready_session_facts:
  "\<not> isRunning ready_session \<and> webR ready_session \<and> status ready_session = (Ready, js ''Ready'')"
  by (simp add: session_eval)

lemma failed_session_facts:
  "\<not> isRunning failed_session \<and> webR failed_session \<and>
   status failed_session = (Error, js ''Initialization failed'') \<and>
   webR_calls failed_session = [] \<and> consoleReadOnly failed_session \<and>
   runBtn_disabled failed_session \<and> editor failed_session = Some one_line_editor"
  by (simp add: session_eval)

lemma one_plus_one: "truthy (js ''1 + 1'') \<and> helpTopicMatch (js ''1 + 1'') = None \<and>
    isHelpRequest (js ''1 + 1'') = None \<and>
    echo_records (js ''1 + 1'') = [(js ''> 1 + 1'', Command)]"
  by (simp add: helpTopicMatch_def help_eval string_eval echo_records_def)

lemma error_records:
  "error_record (js ''object not found'') = (js ''Error: object not found'', Stderr) \<and>
   error_record (js ''channel closed'') = (js ''Error: channel closed'', Stderr)"
  by (simp add: error_record_def js_def)

lemma prints_two_records: "output_records (outputs prints_two) = [(js ''[1] 2'', Stdout)]"
  by (simp add: prints_two_def output_records_def routed_def List.map_filter_simps blank_def
      string_eval)

text \<open>
  In a ready session with the Run Lock free, \<^verbatim>\<open>1 + 1\<close> is evaluated and prints its
  result, and the purge of the shelter is then rejected. The \<^verbatim>\<open>finally\<close> block throws
  into the \<^verbatim>\<open>catch\<close> of the outer block, so the console receives the output record
  and an error record as well, not exactly one of the two.
\<close>

theorem run_output_and_error_counterexample:
  "\<not> isRunning ready_session \<and> status ready_session = (Ready, js ''Ready'') \<and>
   js ''1 + 1'' \<noteq> [] \<and> isHelpRequest (js ''1 + 1'') = None \<and>
   consoleOutput (runCode reply_purge_fails (js ''1 + 1'') ready_session) =
     consoleOutput ready_session @
       [(js ''> 1 + 1'', Command), (js ''[1] 2'', Stdout),
        (js ''Error: channel closed'', Stderr)]"
proof -
  have h: "\<not> isRunning ready_session" "webR ready_session" "truthy (js ''1 + 1'')"
    "helpTopicMatch (js ''1 + 1'') = None"
    by (simp_all add: ready_session_facts one_plus_one)
  have "consoleOutput (runCode reply_purge_fails (js ''1 + 1'') ready_session) =
     consoleOutput ready_session @
       [(js ''> 1 + 1'', Command), (js ''[1] 2'', Stdout),
        (js ''Error: channel closed'', Stderr)]"
    by (simp add: consoleOutput_runCode [OF h] reply_purge_fails_def reply_ok_def one_plus_one
        prints_two_records error_records)
  then show ?thesis
    using ready_session_facts one_plus_one by (simp add: truthy_def)
qed

text \<open>
  Claim C1, as amended. Let the code be non-empty and not a help request (also a request
  whose topic trims to nothing counts as none), the Run Lock free and the interpreter
  object present. Then \<^verbatim>\<open>runCode\<close> leaves the Run Lock free, and after the echo of the
  command it appends: the output records of the result when evaluation and release
  both succeed; one error record when the shelter cannot be created or the evaluation
  fails (with the message of the release if that fails too); and the output records
  followed by one error record when the evaluation succeeds and the release of the
  shelter fails. On every path through \<^verbatim>\<open>runCode\<close>, the early returns included, the
  Run Lock is after the call what it was before.
\<close>

theorem run_appends_result_or_error:
  assumes "\<not> isRunning s" and "webR s" and "truthy code" and "helpTopicMatch code = None"
  shows "isRunning (runCode r' code' s') = isRunning s' \<and>
    \<not> isRunning (runCode r code s) \<and>
    (Shelter_reply r = Returns () \<and> captureR_reply r = Returns res \<and> purge_reply r = Returns () \<longrightarrow>
       consoleOutput (runCode r code s) =
         consoleOutput s @ echo_records code @ output_records (outputs res)) \<and>
    (Shelter_reply r = Raises msg \<longrightarrow>
       consoleOutput (runCode r code s) = consoleOutput s @ echo_records code @ [error_record msg]) \<and>
    (Shelter_reply r = Returns () \<and> captureR_reply r = Raises msg \<and> purge_reply r = Returns () \<longrightarrow>
       consoleOutput (runCode r code s) = consoleOutput s @ echo_records code @ [error_record msg]) \<and>
    (Shelter_reply r = Returns () \<and> captureR_reply r = Raises msg' \<and> purge_reply r = Raises msg \<longrightarrow>
       consoleOutput (runCode r code s) = consoleOutput s @ echo_records code @ [error_record msg]) \<and>
    (Shelter_reply r = Returns () \<and> captureR_reply r = Returns res \<and> purge_reply r = Raises msg \<longrightarrow>
       consoleOutput (runCode r code s) =
         consoleOutput s @ echo_records code @ output_records (outputs res) @ [error_record msg])"
proof -
  have "\<not> isRunning (runCode r code s)"
    using assms(1) by (simp add: isRunning_runCode)
  then show ?thesis
    by (simp add: consoleOutput_runCode [OF assms] isRunning_runCode)
qed

theorem run_appends_result_or_error_witness:
  "consoleOutput (runCode reply_ok (js ''1 + 1'') ready_session) =
     consoleOutput ready_session @ [(js ''> 1 + 1'', Command), (js ''[1] 2'', Stdout)] \<and>
   consoleOutput (runCode reply_eval_fails (js ''1 + 1'') ready_session) =
     consoleOutput ready_session @
       [(js ''> 1 + 1'', Command), (js ''Error: object not found'', Stderr)] \<and>
   \<not> isRunning (runCode reply_ok (js ''1 + 1'') ready_session)"
proof -
  have h: "\<not> isRunning ready_session" "webR ready_session" "truthy (js ''1 + 1'')"
    "helpTopicMatch (js ''1 + 1'') = None"
    by (simp_all add: ready_session_facts one_plus_one)
  have ok: "Shelter_reply reply_ok = Returns () \<and> captureR_reply reply_ok = Returns prints_two \<and>
      purge_reply reply_ok = Returns ()"
    by (simp add: reply_ok_def)
  have bad: "Shelter_reply reply_eval_fails = Returns () \<and>
      captureR_reply reply_eval_fails = Raises (js ''object not found'') \<and>
      purge_reply reply_eval_fails = Returns ()"
    by (simp add: reply_eval_fails_def reply_ok_def)
  from run_appends_result_or_error [OF h, where r = reply_ok and res = prints_two] ok
  have 1: "consoleOutput (runCode reply_ok (js ''1 + 1'') ready_session) =
      consoleOutput ready_session @ echo_records (js ''1 + 1'') @ output_records (outputs prints_two)"
    and 3: "\<not> isRunning (runCode reply_ok (js ''1 + 1'') ready_session)"
    by blast+
  from run_appends_result_or_error
    [OF h, where r = reply_eval_fails and msg = "js ''object not found''"] bad
  have 2: "consoleOutput (runCode reply_eval_fails (js ''1 + 1'') ready_session) =
      consoleOutput ready_session @ echo_records (js ''1 + 1'') @
        [error_record (js ''object not found'')]"
    by blast
  from 1 2 3 show ?thesis
    by (simp add: one_plus_one prints_two_records error_records)
qed

text \<open>
  Claim C2. When \<^verbatim>\<open>runCode\<close> has created a shelter, it has asked for its purge by the
  time control reaches the reset of \<^verbatim>\<open>isRunning\<close>, whether the evaluation succeeded or
  not: the requests of the run are the creation, the evaluation and the purge, in this
  order, and the lock is still held then. When the creation fails there is nothing to
  purge. The reset makes no further request. So the number of shelters created and
  not purged is the same after every call of \<^verbatim>\<open>runCode\<close> and after every series of
  events as before.
\<close>

theorem shelter_purged_before_unlock:
  "(Shelter_reply r = Returns () \<longrightarrow>
      webR_calls (before_unlock r code s) = webR_calls s @ [ShelterNew True, CaptureR, Purge] \<and>
      isRunning (before_unlock r code s)) \<and>
   (Shelter_reply r = Raises msg \<longrightarrow>
      webR_calls (before_unlock r code s) = webR_calls s @ [ShelterNew False] \<and>
      isRunning (before_unlock r code s)) \<and>
   (\<not> isRunning s \<and> webR s \<and> truthy code \<and> helpTopicMatch code = None \<longrightarrow>
      runCode r code s = unlock_session (before_unlock r code s) \<and>
      webR_calls (runCode r code s) = webR_calls (before_unlock r code s) \<and>
      \<not> isRunning (runCode r code s)) \<and>
   open_shelters (webR_calls (runCode r code s)) = open_shelters (webR_calls s) \<and>
   open_shelters (webR_calls (run_events evs s)) = open_shelters (webR_calls s)"
proof -
  have "webR_calls (unlock_session t) = webR_calls t \<and> \<not> isRunning (unlock_session t)" for t
    by (simp add: unlock_session_def setStatus_def)
  then show ?thesis
    using before_unlock_effect [of r code s]
    by (auto simp: runCode_locked_path open_shelters_runCode open_shelters_run_events)
qed

theorem shelter_purged_before_unlock_witness:
  "webR_calls (before_unlock reply_eval_fails (js ''1 + 1'') ready_session) =
     [ShelterNew True, CaptureR, Purge] \<and>
   isRunning (before_unlock reply_eval_fails (js ''1 + 1'') ready_session) \<and>
   webR_calls (runCode reply_eval_fails (js ''1 + 1'') ready_session) =
     [ShelterNew True, CaptureR, Purge] \<and>
   \<not> isRunning (runCode reply_eval_fails (js ''1 + 1'') ready_session) \<and>
   open_shelters
     (webR_calls
        (run_events [ConsoleInput (js ''1 + 1''), ConsoleEnter reply_eval_fails,
                     RunFromEditor reply_purge_fails] ready_session)) = 0"
proof -
  have h: "\<not> isRunning ready_session \<and> webR ready_session \<and> truthy (js ''1 + 1'') \<and>
      helpTopicMatch (js ''1 + 1'') = None"
    by (simp add: ready_session_facts one_plus_one)
  have r: "Shelter_reply reply_eval_fails = Returns ()"
    by (simp add: reply_eval_fails_def reply_ok_def)
  have c: "webR_calls ready_session = []"
    by (simp add: ready_session_def init_frame page_loaded_def)
  then have z: "open_shelters (webR_calls ready_session) = 0"
    by (simp add: open_shelters_def)
  let ?evs = "[ConsoleInput (js ''1 + 1''), ConsoleEnter reply_eval_fails,
      RunFromEditor reply_purge_fails]"
  from shelter_purged_before_unlock [of reply_eval_fails "js ''1 + 1''" ready_session _ ?evs] h r
  have a: "webR_calls (before_unlock reply_eval_fails (js ''1 + 1'') ready_session) =
      webR_calls ready_session @ [ShelterNew True, CaptureR, Purge]"
    and b: "isRunning (before_unlock reply_eval_fails (js ''1 + 1'') ready_session)"
    and d: "webR_calls (runCode reply_eval_fails (js ''1 + 1'') ready_session) =
      webR_calls (before_unlock reply_eval_fails (js ''1 + 1'') ready_session)"
    and e: "\<not> isRunning (runCode reply_eval_fails (js ''1 + 1'') ready_session)"
    and f: "open_shelters (webR_calls (run_events ?evs ready_session)) =
      open_shelters (webR_calls ready_session)"
    by blast+
  from a b d e f c z show ?thesis by simp
qed

text \<open>
  What \<^verbatim>\<open>runCode\<close> and its callers skip. \<^verbatim>\<open>runCode\<close> returns at once, changing
  nothing, when the Run Lock is held, when the code is the empty string, or when the
  variable \<^verbatim>\<open>webR\<close> is \<^verbatim>\<open>null\<close>. Blank input does not reach \<^verbatim>\<open>runCode\<close>: the Enter
  handler of the console does nothing for it, and the editor path does not call
  \<^verbatim>\<open>runCode\<close> for it.
\<close>

lemma runCode_guard:
  "(isRunning s \<or> \<not> webR s \<or> code = [] \<longrightarrow> runCode r code s = s) \<and>
   (blank (consoleValue s) \<longrightarrow> handleConsoleEnter r s = s) \<and>
   (editor s = Some ed \<and> ed_selection ed \<noteq> [] \<and> blank (ed_selection ed) \<longrightarrow>
      runFromEditor r s = s) \<and>
   (editor s = Some ed \<and> ed_selection ed = [] \<and>
    js_index (ed_lines ed) (int (ed_cursor_line ed)) = Some line \<and> blank line \<longrightarrow>
      consoleOutput (runFromEditor r s) = consoleOutput s \<and>
      webR_calls (runFromEditor r s) = webR_calls s \<and>
      isRunning (runFromEditor r s) = isRunning s)"
  by (auto simp: runCode_skip handleConsoleEnter_def runFromEditor_def truthy_def Let_def
      blank_def trim_Nil_iff [symmetric])

lemma runFromEditor_failed_session:
  "runFromEditor reply_ok failed_session = runCode reply_ok (js ''1 + 1'') failed_session"
proof -
  have "trim (js ''1 + 1'') = js ''1 + 1''"
    by (simp add: string_eval)
  then show ?thesis
    using failed_session_facts
    by (simp add: runFromEditor_def one_line_editor_def js_index_def Let_def truthy_def js_def)
qed

text \<open>
  Claim C3. A call of \<^verbatim>\<open>runCode\<close> is to change nothing when the Run Lock is held, when
  the code is empty or blank, or when the session is not ready. For a session that is
  not ready the code does not keep this. When the installation of the package fails,
  \<^verbatim>\<open>initWebR\<close> sets the status to \<^verbatim>\<open>error\<close> and leaves the run button disabled and the
  console input read-only; the variable \<^verbatim>\<open>webR\<close> was assigned before. The run binding
  of the editor then still reaches \<^verbatim>\<open>runCode\<close>, whose guard looks at \<^verbatim>\<open>webR\<close> only:
  the line \<^verbatim>\<open>1 + 1\<close> is echoed and evaluated in a new shelter, its output is appended,
  and the session is left with status \<^verbatim>\<open>ready\<close>, the button enabled and the console
  input writable.
\<close>

theorem failed_start_still_runs:
  "status failed_session = (Error, js ''Initialization failed'') \<and>
   consoleReadOnly failed_session \<and> runBtn_disabled failed_session \<and>
   \<not> isRunning failed_session \<and>
   consoleOutput (runFromEditor reply_ok failed_session) =
     consoleOutput failed_session @ [(js ''> 1 + 1'', Command), (js ''[1] 2'', Stdout)] \<and>
   webR_calls (runFromEditor reply_ok failed_session) =
     webR_calls failed_session @ [ShelterNew True, CaptureR, Purge] \<and>
   status (runFromEditor reply_ok failed_session) = (Ready, js ''Ready'') \<and>
   \<not> consoleReadOnly (runFromEditor reply_ok failed_session) \<and>
   \<not> runBtn_disabled (runFromEditor reply_ok failed_session)"
proof -
  have h: "\<not> isRunning failed_session" "webR failed_session" "truthy (js ''1 + 1'')"
    "helpTopicMatch (js ''1 + 1'') = None"
    by (simp_all add: failed_session_facts one_plus_one)
  have 1: "consoleOutput (runCode reply_ok (js ''1 + 1'') failed_session) =
     consoleOutput failed_session @ [(js ''> 1 + 1'', Command), (js ''[1] 2'', Stdout)]"
    by (simp add: consoleOutput_runCode [OF h] reply_ok_def one_plus_one
        prints_two_records)
  have 2: "webR_calls (runCode reply_ok (js ''1 + 1'') failed_session) =
     webR_calls failed_session @ [ShelterNew True, CaptureR, Purge]"
    using h by (simp add: webR_calls_runCode reply_ok_def)
  have 3: "status (runCode reply_ok (js ''1 + 1'') failed_session) = (Ready, js ''Ready'') \<and>
      \<not> consoleReadOnly (runCode reply_ok (js ''1 + 1'') failed_session) \<and>
      \<not> runBtn_disabled (runCode reply_ok (js ''1 + 1'') failed_session)"
    by (simp add: runCode_locked_path [OF h] unlock_session_def setStatus_def)
  from 1 2 3 show ?thesis
    using failed_session_facts by (simp add: runFromEditor_failed_session)
qed

end
